theory Spec2Isabelle
  imports Main "HOL-Library.AList" "HOL-Library.Multiset"
begin

section \<open>Form submission orchestration of the form factory provider\<close>

text \<open>
  The source file holds three variants of \<^verbatim>\<open>FormFactoryProvider\<close> and the component
  \<^verbatim>\<open>IncompleteFormConfirmationModal\<close>:
  \<^item> variant 1 (lines 1-214): the effect body \<^verbatim>\<open>handleFormSubmission\<close> with the optional
    callback \<^verbatim>\<open>handleEmptyFormSubmission\<close>, whose result may be a promise, a boolean or
    anything else;
  \<^item> variant 2 (lines 214-440): \<^verbatim>\<open>handleFormSubmission(forms)\<close> as a callback of its own,
    the state \<^verbatim>\<open>isEmptyFormModalOpen\<close> and the confirmation modal;
  \<^item> variant 3 (lines 441-646): as variant 1, the callback awaited inside a try block and
    followed by \<^verbatim>\<open>handleDiscardForm\<close>.

  The component calls its collaborators (the validators, the processors, the notification
  primitives, the callbacks of its props) in some order; the model computes the list of
  these calls, the trace, from the values the collaborators give back. The modelling
  boundary: a synchronous collaborator returns normally; an awaited promise resolves,
  rejects or never settles. Each function of the component is modelled by its run; the
  last part of the model puts the runs together as React starts them, render after
  render.
\<close>

subsection \<open>Values of the host language\<close>

text \<open>The identity of an \<^verbatim>\<open>AbortController\<close> instance.\<close>

type_synonym token = nat

text \<open>
  A thrown value, as the catch block tells them apart: \<^verbatim>\<open>errorObject instanceof Error\<close>
  with its \<^verbatim>\<open>message\<close>, or any other value.
\<close>

datatype 'v thrown = ErrorInstance string | OtherValue 'v

text \<open>What \<^verbatim>\<open>await\<close> gives: a value, a thrown value, or no resumption at all.\<close>

datatype ('a, 'v) awaited = Fulfilled 'a | Threw "'v thrown" | Never

text \<open>
  The promise a processor returns: it stays pending for ever, resolves with a result, or
  rejects with a value; the number of a rejection is the moment it happens.
\<close>

datatype ('r, 'v) promise =
    Pending
  | is_Resolved: Resolved 'r
  | is_Rejected: Rejected nat "'v thrown"

text \<open>
  \<^verbatim>\<open>await Promise.all(promises)\<close>: rejects with the earliest rejection (the first of
  the list among simultaneous ones), also while other promises are pending; resolves with
  the results in the order of the list once every promise has resolved.
\<close>

fun first_rejection :: "('r, 'v) promise list \<Rightarrow> (nat \<times> 'v thrown) option" where
  "first_rejection [] = None"
| "first_rejection (Rejected n e # ps) =
     (case first_rejection ps of
        None \<Rightarrow> Some (n, e)
      | Some (m, e') \<Rightarrow> if m < n then Some (m, e') else Some (n, e))"
| "first_rejection (Pending # ps) = first_rejection ps"
| "first_rejection (Resolved r # ps) = first_rejection ps"

fun resolved_values :: "('r, 'v) promise list \<Rightarrow> 'r list option" where
  "resolved_values [] = Some []"
| "resolved_values (Resolved r # ps) = map_option ((#) r) (resolved_values ps)"
| "resolved_values (Pending # ps) = None"
| "resolved_values (Rejected n e # ps) = None"

definition await_Promise_all :: "('r, 'v) promise list \<Rightarrow> ('r list, 'v) awaited" where
  "await_Promise_all promises =
     (case first_rejection promises of
        Some (n, e) \<Rightarrow> Threw e
      | None \<Rightarrow>
          (case resolved_values promises of
             Some results \<Rightarrow> Fulfilled results
           | None \<Rightarrow> Never))"

text \<open>
  \<^verbatim>\<open>forms.every(f)\<close> calls \<^verbatim>\<open>f\<close> on the elements in order and stops after the first
  that fails; \<^verbatim>\<open>forms.some(f)\<close> stops after the first that passes. The results are
  \<^const>\<open>list_all\<close> and \<^const>\<open>list_ex\<close>; these are the elements the callback is called on.
\<close>

fun every_calls :: "('a \<Rightarrow> bool) \<Rightarrow> 'a list \<Rightarrow> 'a list" where
  "every_calls p [] = []"
| "every_calls p (x # xs) = x # (if p x then every_calls p xs else [])"

fun some_calls :: "('a \<Rightarrow> bool) \<Rightarrow> 'a list \<Rightarrow> 'a list" where
  "some_calls p [] = []"
| "some_calls p (x # xs) = x # (if p x then [] else some_calls p xs)"

text \<open>
  \<^verbatim>\<open>Object.values(obj)\<close> of an object kept as the list of its properties in creation
  order: the values under array-index keys (canonical decimal numerals below \<open>2^32 - 1\<close>)
  come first, by ascending index, then the others in creation order.
  \<^verbatim>\<open>obj[key] = value\<close> is \<^const>\<open>AList.update\<close>: an existing key keeps its place.
\<close>

definition is_digit :: "char \<Rightarrow> bool" where
  "is_digit c = (48 \<le> (of_char c :: nat) \<and> (of_char c :: nat) \<le> 57)"

definition decimal :: "string \<Rightarrow> nat" where
  "decimal s = foldl (\<lambda>a c. 10 * a + ((of_char c :: nat) - 48)) 0 s"

definition array_index :: "string \<Rightarrow> nat option" where
  "array_index s =
     (if s \<noteq> [] \<and> list_all is_digit s \<and> (length s = 1 \<or> hd s \<noteq> CHR ''0'')
         \<and> decimal s < 2 ^ 32 - 1
      then Some (decimal s) else None)"

definition object_values :: "(string \<times> 'a) list \<Rightarrow> 'a list" where
  "object_values obj =
     map snd (sort_key fst
       (List.map_filter (\<lambda>(k, v). map_option (\<lambda>i. (i, v)) (array_index k)) obj))
     @ map snd (filter (\<lambda>(k, v). array_index k = None) obj)"

subsection \<open>The registered forms\<close>

text \<open>
  \<^verbatim>\<open>rootForm = useRef<FormContextProps>()\<close> is undefined until a root form registers;
  \<^verbatim>\<open>subForms = useRef<Record<string, FormContextProps>>({})\<close>. A form context is a value
  of the type parameter \<open>'ctx\<close>; \<open>None\<close> is \<^verbatim>\<open>undefined\<close>.
\<close>

record 'ctx form_refs =
  rootForm :: "'ctx option"
  subForms :: "(string \<times> 'ctx) list"

definition registerForm ::
  "string \<Rightarrow> bool \<Rightarrow> 'ctx \<Rightarrow> ('ctx, 'z) form_refs_scheme \<Rightarrow> ('ctx, 'z) form_refs_scheme" where
  "registerForm formId isSubForm formContext st =
     (if isSubForm then st\<lparr>subForms := AList.update formId formContext (subForms st)\<rparr>
      else st\<lparr>rootForm := Some formContext\<rparr>)"

text \<open>\<^verbatim>\<open>const forms = [rootForm.current, ...Object.values(subForms.current)]\<close>\<close>

definition forms_of :: "('ctx, 'z) form_refs_scheme \<Rightarrow> 'ctx option list" where
  "forms_of st = rootForm st # map Some (object_values (subForms st))"

text \<open>Variant 2 adds \<^verbatim>\<open>const [isEmptyFormModalOpen, setIsEmptyFormModalOpen] = useState(false)\<close>.\<close>

record 'ctx provider_state = "'ctx form_refs" +
  isEmptyFormModalOpen :: bool

subsection \<open>Calls and traces\<close>

text \<open>The argument of \<^verbatim>\<open>showSnackbar\<close>: title, subtitle, kind, isLowContrast.\<close>

datatype snackbar = Snackbar string string string bool

text \<open>
  The argument of \<^verbatim>\<open>showToast\<close>: the descriptor the catch block builds (title, kind,
  description, critical), or the caught value itself.
\<close>

datatype 'v toast = ToastDescriptor string string string bool | ToastValue 'v

text \<open>The controls of the confirmation modal: closing it, and its two buttons.\<close>

datatype modal_control = ModalClose | CancelButton | ConfirmButton

text \<open>
  One constructor for each call the component makes, with the arguments that vary from
  call to call (\<^verbatim>\<open>processPostSubmissionActions\<close> also receives the props \<^verbatim>\<open>patient\<close>
  and \<^verbatim>\<open>t\<close>, passed on as they are); \<open>Clicked\<close> records the user's action on the modal
  that a handler answers.
\<close>

datatype ('ctx, 'p, 'r, 'v, 'h) event =
    is_ValidateForm: ValidateForm "'ctx option"
  | is_ValidateEmptyForm: ValidateEmptyForm "'ctx option"
  | is_ValidateEmptyFields: ValidateEmptyFields "'ctx option"
  | HandleEmptyFormSubmission
  | HandleDiscardForm
  | SetIsEmptyFormModalOpen bool
  | Clicked modal_control
  | is_ProcessSubmission: ProcessSubmission 'p 'ctx token
  | is_SetIsSubmitting: SetIsSubmitting bool
  | is_ShowSnackbar: ShowSnackbar snackbar
  | is_ProcessPostSubmissionActions: ProcessPostSubmissionActions 'h "'r list" string
  | HideFormCollapseToggle
  | is_OnSubmit: OnSubmit "'r list"
  | HandleClose
  | is_ShowToast: ShowToast "'v toast"
  | is_Abort: Abort token

text \<open>
  A run of an async function: it ran to its end (\<open>Done\<close>), or it is suspended for ever at
  an \<^verbatim>\<open>await\<close> (\<open>Hung\<close>); in both cases with the calls it made.
\<close>

datatype 'e run = Done "'e list" | Hung "'e list"

fun events :: "'e run \<Rightarrow> 'e list" where
  "events (Done es) = es"
| "events (Hung es) = es"

fun completed :: "'e run \<Rightarrow> bool" where
  "completed (Done es) = True"
| "completed (Hung es) = False"

fun emit :: "'e list \<Rightarrow> 'e run \<Rightarrow> 'e run" where
  "emit es (Done es') = Done (es @ es')"
| "emit es (Hung es') = Hung (es @ es')"

text \<open>
  An async function called without \<^verbatim>\<open>await\<close>: the calls it makes before its first
  \<^verbatim>\<open>await\<close> happen inside the caller, the rest after the caller has returned.
\<close>

definition run_of :: "'e list \<times> 'e run \<Rightarrow> 'e run" where
  "run_of sr = emit (fst sr) (snd sr)"

subsection \<open>Props, hooks and collaborators\<close>

text \<open>
  What \<^verbatim>\<open>handleEmptyFormSubmission()\<close> returns, as variant 1 inspects it:
  \<^verbatim>\<open>result instanceof Promise\<close>, \<^verbatim>\<open>typeof result === 'boolean'\<close>, or anything else.
\<close>

datatype 'v empty_result =
    PromiseResult "(unit, 'v) awaited"
  | BooleanResult bool
  | OtherResult

text \<open>
  The values the component reads and the behaviour of the functions it calls:
  \<^item> \<open>isSubmitting\<close>, \<open>sessionMode\<close>: props; \<open>onSubmit\<close>: whether the prop is given
    (\<^verbatim>\<open>if (onSubmit)\<close>); \<open>handleEmptyFormSubmission\<close>: \<open>None\<close> when the prop is missing or
    not a function, else what the call returns;
  \<^item> \<open>postSubmissionHandlers\<close>: what \<^verbatim>\<open>usePostSubmissionActions\<close> returned, \<open>None\<close> when
    falsy; \<open>t\<close>: the translation function \<^verbatim>\<open>t(key, defaultText)\<close>;
  \<^item> \<open>validateForm\<close>, \<open>validateEmptyForm\<close> (variants 1, 3), \<open>validateEmptyFields\<close> (variant
    2), \<open>processPostSubmissionActions\<close>: the helpers of \<^verbatim>\<open>form-factory-helper\<close>;
  \<^item> \<open>processor\<close>: the field \<^verbatim>\<open>formContext.processor\<close>; \<open>processSubmission\<close>: the promise
    its method returns for a context and an abort controller;
  \<^item> \<open>typeErrorMessage\<close>: the message of the \<^verbatim>\<open>TypeError\<close> the engine throws when
    \<^verbatim>\<open>processor\<close> is read from \<^verbatim>\<open>undefined\<close>.
\<close>

record ('ctx, 'p, 'r, 'v, 'h) environment =
  isSubmitting :: bool
  sessionMode :: string
  onSubmit :: bool
  handleEmptyFormSubmission :: "'v empty_result option"
  postSubmissionHandlers :: "'h option"
  t :: "string \<Rightarrow> string \<Rightarrow> string"
  validateForm :: "'ctx option \<Rightarrow> bool"
  validateEmptyForm :: "'ctx option \<Rightarrow> bool"
  validateEmptyFields :: "'ctx option \<Rightarrow> bool"
  processPostSubmissionActions :: "'h \<Rightarrow> 'r list \<Rightarrow> (unit, 'v) awaited"
  processor :: "'ctx \<Rightarrow> 'p"
  processSubmission :: "'p \<Rightarrow> 'ctx \<Rightarrow> token \<Rightarrow> ('r, 'v) promise"
  typeErrorMessage :: string

subsection \<open>The submission block shared by the three variants\<close>

text \<open>
  \<^verbatim>\<open>forms.map((formContext) => formContext.processor.processSubmission(formContext,
  abortController))\<close>: the calls are made in the order of the list, each with the one
  \<^verbatim>\<open>abortController\<close> of the closure. Reading \<^verbatim>\<open>processor\<close> from an undefined
  context throws at once, and the forms after it are not reached.
\<close>

fun map_processSubmission ::
  "('ctx, 'p, 'r, 'v, 'h) environment \<Rightarrow> 'ctx option list \<Rightarrow> token \<Rightarrow>
     ('ctx, 'p, 'r, 'v, 'h) event list \<times> ('v thrown + ('r, 'v) promise list)" where
  "map_processSubmission env [] abortController = ([], Inr [])"
| "map_processSubmission env (None # fs) abortController =
     ([], Inl (ErrorInstance (typeErrorMessage env)))"
| "map_processSubmission env (Some formContext # fs) abortController =
     (case map_processSubmission env fs abortController of
        (calls, rest) \<Rightarrow>
          (ProcessSubmission (processor env formContext) formContext abortController # calls,
           case rest of
             Inl e \<Rightarrow> Inl e
           | Inr promises \<Rightarrow>
               Inr (processSubmission env (processor env formContext) formContext abortController
                    # promises)))"

text \<open>The catch block (lines 161-173, 335-347, 593-605).\<close>

definition catch_block ::
  "('ctx, 'p, 'r, 'v, 'h) environment \<Rightarrow> 'v thrown \<Rightarrow> ('ctx, 'p, 'r, 'v, 'h) event list" where
  "catch_block env errorObject =
     [SetIsSubmitting False,
      (case errorObject of
         ErrorInstance message \<Rightarrow>
           ShowToast (ToastDescriptor
             (t env ''errorProcessingFormSubmission'' ''Error processing form submission'')
             ''error'' message True)
       | OtherValue v \<Rightarrow> ShowToast (ToastValue v))]"

text \<open>The two success snackbars (lines 137-151, 309-323, 569-583).\<close>

definition success_snackbar :: "('ctx, 'p, 'r, 'v, 'h) environment \<Rightarrow> snackbar" where
  "success_snackbar env =
     (if sessionMode env = ''edit''
      then Snackbar (t env ''updatedRecord'' ''Record updated'')
             (t env ''updatedRecordDescription'' ''The patient encounter was updated'')
             ''success'' True
      else Snackbar (t env ''submittedForm'' ''Form submitted'')
             (t env ''submittedFormDescription'' ''Form submitted successfully'')
             ''success'' True)"

text \<open>
  \<^verbatim>\<open>hideFormCollapseToggle(); if (onSubmit) { onSubmit(results); } else { handleClose(); }\<close>
\<close>

definition hand_over ::
  "('ctx, 'p, 'r, 'v, 'h) environment \<Rightarrow> 'r list \<Rightarrow> ('ctx, 'p, 'r, 'v, 'h) event list" where
  "hand_over env results =
     [HideFormCollapseToggle, if onSubmit env then OnSubmit results else HandleClose]"

text \<open>
  The try block after \<^verbatim>\<open>await Promise.all(...)\<close> has given \<^verbatim>\<open>results\<close>: the flag is
  reset, the snackbar shown, the post-submission actions awaited when there are handlers
  (a rejection there reaches the same catch block), and the results handed over.
\<close>

definition after_results ::
  "('ctx, 'p, 'r, 'v, 'h) environment \<Rightarrow> 'r list \<Rightarrow> ('ctx, 'p, 'r, 'v, 'h) event run" where
  "after_results env results =
     emit [SetIsSubmitting False, ShowSnackbar (success_snackbar env)]
       (case postSubmissionHandlers env of
          None \<Rightarrow> Done (hand_over env results)
        | Some handlers \<Rightarrow>
            emit [ProcessPostSubmissionActions handlers results (sessionMode env)]
              (case processPostSubmissionActions env handlers results of
                 Fulfilled u \<Rightarrow> Done (hand_over env results)
               | Threw errorObject \<Rightarrow> Done (catch_block env errorObject)
               | Never \<Rightarrow> Hung []))"

text \<open>
  \<^verbatim>\<open>handleFormSubmission(forms)\<close> of variant 2 (lines 300-348); variants 1 and 3 hold the
  same statements inline (lines 132-173 and 564-605). The first component holds the calls
  made before the first \<^verbatim>\<open>await\<close>, the second the run after it. A throw inside
  \<^verbatim>\<open>forms.map\<close> is caught before any \<^verbatim>\<open>await\<close>.
\<close>

definition handleFormSubmission ::
  "('ctx, 'p, 'r, 'v, 'h) environment \<Rightarrow> 'ctx option list \<Rightarrow> token \<Rightarrow>
     ('ctx, 'p, 'r, 'v, 'h) event list \<times> ('ctx, 'p, 'r, 'v, 'h) event run" where
  "handleFormSubmission env forms abortController =
     (case map_processSubmission env forms abortController of
        (calls, Inl errorObject) \<Rightarrow> (calls @ catch_block env errorObject, Done [])
      | (calls, Inr promises) \<Rightarrow>
          (calls,
           case await_Promise_all promises of
             Fulfilled results \<Rightarrow> after_results env results
           | Threw errorObject \<Rightarrow> Done (catch_block env errorObject)
           | Never \<Rightarrow> Hung []))"

subsection \<open>Variant 1\<close>

text \<open>The branches on the result of \<^verbatim>\<open>handleEmptyFormSubmission()\<close> (lines 111-128).\<close>

definition empty_form_v1 :: "'v empty_result \<Rightarrow> ('ctx, 'p, 'r, 'v, 'h) event run" where
  "empty_form_v1 result =
     (case result of
        PromiseResult settled \<Rightarrow>
          (case settled of
             Fulfilled u \<Rightarrow> Done [HandleClose, SetIsSubmitting False]
           | Threw e \<Rightarrow> Done [SetIsSubmitting False]
           | Never \<Rightarrow> Hung [])
      | BooleanResult b \<Rightarrow> Done ((if b then [HandleClose] else []) @ [SetIsSubmitting False])
      | OtherResult \<Rightarrow> Done [HandleClose, SetIsSubmitting False])"

text \<open>The async function of the effect (lines 100-178).\<close>

definition handleFormSubmission_v1 ::
  "('ctx, 'p, 'r, 'v, 'h) environment \<Rightarrow> ('ctx, 'z) form_refs_scheme \<Rightarrow> token \<Rightarrow>
     ('ctx, 'p, 'r, 'v, 'h) event run" where
  "handleFormSubmission_v1 env st abortController =
     (if isSubmitting env then
        (let forms = forms_of st;
             isValid = list_all (validateForm env) forms;
             validations = map ValidateForm (every_calls (validateForm env) forms)
         in if isValid then
              (let isEmpty = list_all (validateEmptyForm env) forms;
                   checks = map ValidateEmptyForm (every_calls (validateEmptyForm env) forms)
               in case (if isEmpty then handleEmptyFormSubmission env else None) of
                    Some result \<Rightarrow>
                      emit (validations @ checks @ [HandleEmptyFormSubmission])
                        (empty_form_v1 result)
                  | None \<Rightarrow>
                      emit (validations @ checks)
                        (run_of (handleFormSubmission env forms abortController)))
            else Done (validations @ [SetIsSubmitting False]))
      else Done [])"

text \<open>
  \<^verbatim>\<open>useEffect(() => { ...; handleFormSubmission(); return () => { abortController.abort(); }; },
  [isSubmitting])\<close>: the run of the effect and the cleanup it returns, if any.
\<close>

definition useEffect_v1 ::
  "('ctx, 'p, 'r, 'v, 'h) environment \<Rightarrow> ('ctx, 'z) form_refs_scheme \<Rightarrow> token \<Rightarrow>
     ('ctx, 'p, 'r, 'v, 'h) event run \<times> ('ctx, 'p, 'r, 'v, 'h) event list option" where
  "useEffect_v1 env st abortController =
     (handleFormSubmission_v1 env st abortController, Some [Abort abortController])"

text \<open>React runs the cleanup an effect returned when the component is torn down.\<close>

definition teardown :: "'e list option \<Rightarrow> 'e list" where
  "teardown cleanup = (case cleanup of None \<Rightarrow> [] | Some es \<Rightarrow> es)"

subsection \<open>Variant 3\<close>

text \<open>
  \<^verbatim>\<open>await handleEmptyFormSubmission()\<close>: a promise is awaited, any other value is the
  result of the \<^verbatim>\<open>await\<close> itself.
\<close>

definition await_result :: "'v empty_result \<Rightarrow> (unit, 'v) awaited" where
  "await_result result =
     (case result of
        PromiseResult settled \<Rightarrow> settled
      | BooleanResult b \<Rightarrow> Fulfilled ()
      | OtherResult \<Rightarrow> Fulfilled ())"

text \<open>The async function of the effect (lines 543-610).\<close>

definition handleFormSubmission_v3 ::
  "('ctx, 'p, 'r, 'v, 'h) environment \<Rightarrow> ('ctx, 'z) form_refs_scheme \<Rightarrow> token \<Rightarrow>
     ('ctx, 'p, 'r, 'v, 'h) event run" where
  "handleFormSubmission_v3 env st abortController =
     (if isSubmitting env then
        (let forms = forms_of st;
             isValid = list_all (validateForm env) forms;
             validations = map ValidateForm (every_calls (validateForm env) forms);
             isEmpty = list_all (validateEmptyForm env) forms;
             checks = map ValidateEmptyForm (every_calls (validateEmptyForm env) forms)
         in case (if isEmpty \<and> isValid then handleEmptyFormSubmission env else None) of
              Some result \<Rightarrow>
                emit (validations @ checks @ [HandleEmptyFormSubmission])
                  (case await_result result of
                     Fulfilled u \<Rightarrow> Done [HandleDiscardForm, SetIsSubmitting False]
                   | Threw e \<Rightarrow> Done [SetIsSubmitting False]
                   | Never \<Rightarrow> Hung [])
            | None \<Rightarrow>
                if isValid then
                  emit (validations @ checks)
                    (run_of (handleFormSubmission env forms abortController))
                else Done (validations @ checks @ [SetIsSubmitting False]))
      else Done [])"

definition useEffect_v3 ::
  "('ctx, 'p, 'r, 'v, 'h) environment \<Rightarrow> ('ctx, 'z) form_refs_scheme \<Rightarrow> token \<Rightarrow>
     ('ctx, 'p, 'r, 'v, 'h) event run \<times> ('ctx, 'p, 'r, 'v, 'h) event list option" where
  "useEffect_v3 env st abortController =
     (handleFormSubmission_v3 env st abortController, Some [Abort abortController])"

subsection \<open>Variant 2 and the confirmation modal\<close>

text \<open>
  The effect (lines 386-402): both checks are computed before the branch; the effect
  returns no cleanup.
\<close>

definition useEffect_v2 ::
  "('ctx, 'p, 'r, 'v, 'h) environment \<Rightarrow> 'ctx provider_state \<Rightarrow> token \<Rightarrow>
     (('ctx, 'p, 'r, 'v, 'h) event run \<times> 'ctx provider_state)
       \<times> ('ctx, 'p, 'r, 'v, 'h) event list option" where
  "useEffect_v2 env st abortController =
     (if isSubmitting env then
        (let forms = forms_of st;
             isValid = list_all (validateForm env) forms;
             validations = map ValidateForm (every_calls (validateForm env) forms);
             isEmpty = list_ex (validateEmptyFields env) forms;
             checks = map ValidateEmptyFields (some_calls (validateEmptyFields env) forms)
         in if isValid then
              (if isEmpty then
                 (Done (validations @ checks @ [SetIsEmptyFormModalOpen True]),
                  st\<lparr>isEmptyFormModalOpen := True\<rparr>)
               else
                 (emit (validations @ checks)
                    (run_of (handleFormSubmission env forms abortController)),
                  st))
            else (Done (validations @ checks @ [SetIsSubmitting False]), st))
      else (Done [], st),
      None)"

text \<open>
  \<^verbatim>\<open>handleIncompleteFormConfirmation\<close> (lines 375-379): \<^verbatim>\<open>handleFormSubmission(forms)\<close>
  is not awaited, so the modal is closed once the processors have been called and before
  any of their promises is looked at.
\<close>

definition handleIncompleteFormConfirmation ::
  "('ctx, 'p, 'r, 'v, 'h) environment \<Rightarrow> 'ctx provider_state \<Rightarrow> token \<Rightarrow>
     ('ctx, 'p, 'r, 'v, 'h) event run \<times> 'ctx provider_state" where
  "handleIncompleteFormConfirmation env st abortController =
     (let forms = forms_of st;
          submission = handleFormSubmission env forms abortController
      in (emit (fst submission @ [SetIsEmptyFormModalOpen False]) (snd submission),
          st\<lparr>isEmptyFormModalOpen := False\<rparr>))"

text \<open>\<^verbatim>\<open>handleIncompleteFormDiscard\<close> (lines 381-384).\<close>

definition handleIncompleteFormDiscard ::
  "'ctx provider_state \<Rightarrow> ('ctx, 'p, 'r, 'v, 'h) event run \<times> 'ctx provider_state" where
  "handleIncompleteFormDiscard st =
     (Done [SetIsEmptyFormModalOpen False, SetIsSubmitting False],
      st\<lparr>isEmptyFormModalOpen := False\<rparr>)"

text \<open>
  \<^verbatim>\<open>IncompleteFormConfirmationModal\<close> (lines 657-685): \<^verbatim>\<open>onClose={onDiscard}\<close> on the
  modal, \<^verbatim>\<open>onClick={onDiscard}\<close> on the Cancel button, \<^verbatim>\<open>onClick={onConfirmation}\<close> on the
  Confirm button.
\<close>

definition IncompleteFormConfirmationModal :: "'a \<Rightarrow> 'a \<Rightarrow> modal_control \<Rightarrow> 'a" where
  "IncompleteFormConfirmationModal onDiscard onConfirmation control =
     (case control of
        ModalClose \<Rightarrow> onDiscard
      | CancelButton \<Rightarrow> onDiscard
      | ConfirmButton \<Rightarrow> onConfirmation)"

text \<open>
  The render (lines 422-428): the modal exists only while \<^verbatim>\<open>isEmptyFormModalOpen\<close>
  holds, with the two handlers of that render.
\<close>

definition modal_action ::
  "('ctx, 'p, 'r, 'v, 'h) environment \<Rightarrow> 'ctx provider_state \<Rightarrow> token \<Rightarrow> modal_control \<Rightarrow>
     (('ctx, 'p, 'r, 'v, 'h) event run \<times> 'ctx provider_state) option" where
  "modal_action env st abortController control =
     (if isEmptyFormModalOpen st then
        Some (IncompleteFormConfirmationModal
                (handleIncompleteFormDiscard st)
                (handleIncompleteFormConfirmation env st abortController)
                control)
      else None)"

subsection \<open>Renders and effects\<close>

text \<open>
  React calls the component function at every render, and every call makes a new
  \<^verbatim>\<open>AbortController\<close> (lines 84, 298, 527): the model numbers the renders and takes the
  number of a render for the identity of its controller. After a render, React runs an
  effect when the render is the first one or when a dependency of the effect differs
  from the previous render's; before it runs the effect again, it runs the cleanup that
  the previous run returned.

  Variants 1 and 3 give the dependencies \<^verbatim>\<open>[isSubmitting]\<close> (lines 183, 615). The
  function below lists the runs that a sequence of renders starts, in their order; a
  render is given by the value of the prop \<^verbatim>\<open>isSubmitting\<close> at that render.
\<close>

fun effect_runs ::
  "(bool \<Rightarrow> token \<Rightarrow> 'e run \<times> 'e list option) \<Rightarrow> nat \<Rightarrow> bool option \<Rightarrow> 'e list option \<Rightarrow>
     bool list \<Rightarrow> 'e run list" where
  "effect_runs effect n previous cleanup [] = []"
| "effect_runs effect n previous cleanup (submitting # renders) =
     (if previous = Some submitting
      then effect_runs effect (Suc n) previous cleanup renders
      else (case cleanup of None \<Rightarrow> [] | Some es \<Rightarrow> [Done es])
           @ fst (effect submitting (Suc n))
           # effect_runs effect (Suc n) (Some submitting)
               (snd (effect submitting (Suc n))) renders)"

definition lifecycle_v1 ::
  "('ctx, 'p, 'r, 'v, 'h) environment \<Rightarrow> ('ctx, 'z) form_refs_scheme \<Rightarrow> bool list \<Rightarrow>
     ('ctx, 'p, 'r, 'v, 'h) event run list" where
  "lifecycle_v1 env st renders =
     effect_runs (\<lambda>submitting abortController.
        useEffect_v1 (env\<lparr>isSubmitting := submitting\<rparr>) st abortController)
       0 None None renders"

definition lifecycle_v3 ::
  "('ctx, 'p, 'r, 'v, 'h) environment \<Rightarrow> ('ctx, 'z) form_refs_scheme \<Rightarrow> bool list \<Rightarrow>
     ('ctx, 'p, 'r, 'v, 'h) event run list" where
  "lifecycle_v3 env st renders =
     effect_runs (\<lambda>submitting abortController.
        useEffect_v3 (env\<lparr>isSubmitting := submitting\<rparr>) st abortController)
       0 None None renders"

text \<open>
  Variant 2 gives the dependencies \<^verbatim>\<open>[isSubmitting, handleFormSubmission]\<close> (line 402).
  \<^verbatim>\<open>handleFormSubmission\<close> is a \<^verbatim>\<open>useCallback\<close> with \<^verbatim>\<open>abortController\<close> among its
  dependencies (lines 349-350), so it is a new function at every render, and the effect
  runs after every render. The handlers the modal receives are those of the latest
  render, and they call the \<^verbatim>\<open>handleFormSubmission\<close> of that render.

  The runs of variant 2 are listed with the calls made before the first \<^verbatim>\<open>await\<close> kept
  apart from the run after it: the first are made at once, in the order of the list; the
  second are made when the awaited promise settles, which may be after later runs
  have started.
\<close>

text \<open>The effect of variant 2 (lines 386-402), as \<open>useEffect_v2\<close>, in two parts.\<close>

definition effect_parts_v2 ::
  "('ctx, 'p, 'r, 'v, 'h) environment \<Rightarrow> 'ctx provider_state \<Rightarrow> token \<Rightarrow>
     (('ctx, 'p, 'r, 'v, 'h) event list \<times> ('ctx, 'p, 'r, 'v, 'h) event run)
       \<times> 'ctx provider_state" where
  "effect_parts_v2 env st abortController =
     (if isSubmitting env then
        (let forms = forms_of st;
             isValid = list_all (validateForm env) forms;
             validations = map ValidateForm (every_calls (validateForm env) forms);
             isEmpty = list_ex (validateEmptyFields env) forms;
             checks = map ValidateEmptyFields (some_calls (validateEmptyFields env) forms)
         in if isValid then
              (if isEmpty then
                 ((validations @ checks @ [SetIsEmptyFormModalOpen True], Done []),
                  st\<lparr>isEmptyFormModalOpen := True\<rparr>)
               else
                 (let submission = handleFormSubmission env forms abortController
                  in ((validations @ checks @ fst submission, snd submission), st)))
            else ((validations @ checks @ [SetIsSubmitting False], Done []), st))
      else (([], Done []), st))"

text \<open>The two handlers of the modal (lines 375-384), in two parts.\<close>

definition confirmation_parts ::
  "('ctx, 'p, 'r, 'v, 'h) environment \<Rightarrow> 'ctx provider_state \<Rightarrow> token \<Rightarrow>
     (('ctx, 'p, 'r, 'v, 'h) event list \<times> ('ctx, 'p, 'r, 'v, 'h) event run)
       \<times> 'ctx provider_state" where
  "confirmation_parts env st abortController =
     (let forms = forms_of st;
          submission = handleFormSubmission env forms abortController
      in ((fst submission @ [SetIsEmptyFormModalOpen False], snd submission),
          st\<lparr>isEmptyFormModalOpen := False\<rparr>))"

definition discard_parts ::
  "'ctx provider_state \<Rightarrow>
     (('ctx, 'p, 'r, 'v, 'h) event list \<times> ('ctx, 'p, 'r, 'v, 'h) event run)
       \<times> 'ctx provider_state" where
  "discard_parts st =
     (([SetIsEmptyFormModalOpen False, SetIsSubmitting False], Done []),
      st\<lparr>isEmptyFormModalOpen := False\<rparr>)"

text \<open>
  The mounted component of variant 2: the refs and the state, the number of renders so
  far, and the prop \<^verbatim>\<open>isSubmitting\<close> of the latest render.
\<close>

record 'ctx component_v2 =
  provider :: "'ctx provider_state"
  renders :: nat
  submitting :: bool

text \<open>Before the first render: \<^verbatim>\<open>useState(false)\<close>, with the forms that register.\<close>

definition mount_v2 :: "('ctx, 'z) form_refs_scheme \<Rightarrow> 'ctx component_v2" where
  "mount_v2 st =
     \<lparr>provider = \<lparr>rootForm = rootForm st, subForms = subForms st,
                  isEmptyFormModalOpen = False\<rparr>,
      renders = 0,
      submitting = False\<rparr>"

text \<open>One render with the latest props, and the run of the effect after it.\<close>

definition render_once_v2 ::
  "('ctx, 'p, 'r, 'v, 'h) environment \<Rightarrow> 'ctx component_v2 \<Rightarrow>
     (('ctx, 'p, 'r, 'v, 'h) event list \<times> ('ctx, 'p, 'r, 'v, 'h) event run)
       \<times> 'ctx component_v2" where
  "render_once_v2 env c =
     (let abortController = Suc (renders c);
          effect = effect_parts_v2 (env\<lparr>isSubmitting := submitting c\<rparr>) (provider c)
                     abortController
      in (fst effect, c\<lparr>provider := snd effect, renders := abortController\<rparr>))"

text \<open>
  A render; when its effect has changed the state, React renders again with the same
  props and the effect runs again. That second run leaves the state as it is (lemma
  \<open>effect_parts_v2_open\<close>), so no third render follows.
\<close>

definition render_v2 ::
  "('ctx, 'p, 'r, 'v, 'h) environment \<Rightarrow> 'ctx component_v2 \<Rightarrow>
     (('ctx, 'p, 'r, 'v, 'h) event list \<times> ('ctx, 'p, 'r, 'v, 'h) event run) list
       \<times> 'ctx component_v2" where
  "render_v2 env c =
     (let first = render_once_v2 env c
      in if isEmptyFormModalOpen (provider (snd first)) = isEmptyFormModalOpen (provider c)
         then ([fst first], snd first)
         else (let second = render_once_v2 env (snd first)
               in ([fst first, fst second], snd second)))"

text \<open>
  What happens to the mounted component: a render with a value of the prop
  \<^verbatim>\<open>isSubmitting\<close> (the parent has rendered, or a hook has a new value), or an action of
  the user on the modal.
\<close>

datatype input = Render bool | Click modal_control

text \<open>
  A click reaches a handler only while the modal is rendered (lines 422-428); the
  handler is the one of the latest render; it changes the state, so a render follows.
\<close>

definition step_v2 ::
  "('ctx, 'p, 'r, 'v, 'h) environment \<Rightarrow> input \<Rightarrow> 'ctx component_v2 \<Rightarrow>
     (('ctx, 'p, 'r, 'v, 'h) event list \<times> ('ctx, 'p, 'r, 'v, 'h) event run) list
       \<times> 'ctx component_v2" where
  "step_v2 env i c =
     (case i of
        Render b \<Rightarrow> render_v2 env (c\<lparr>submitting := b\<rparr>)
      | Click control \<Rightarrow>
          if isEmptyFormModalOpen (provider c) then
            (let handler = IncompleteFormConfirmationModal
                             (discard_parts (provider c))
                             (confirmation_parts env (provider c) (renders c))
                             control;
                 rendered = render_v2 env (c\<lparr>provider := snd handler\<rparr>)
             in ((Clicked control # fst (fst handler), snd (fst handler)) # fst rendered,
                 snd rendered))
          else ([], c))"

fun lifecycle_v2 ::
  "('ctx, 'p, 'r, 'v, 'h) environment \<Rightarrow> 'ctx component_v2 \<Rightarrow> input list \<Rightarrow>
     (('ctx, 'p, 'r, 'v, 'h) event list \<times> ('ctx, 'p, 'r, 'v, 'h) event run) list" where
  "lifecycle_v2 env c [] = []"
| "lifecycle_v2 env c (i # inputs) =
     fst (step_v2 env i c) @ lifecycle_v2 env (snd (step_v2 env i c)) inputs"

text \<open>The calls made at once, in their order.\<close>

definition sync_calls :: "('e list \<times> 'e run) list \<Rightarrow> 'e list" where
  "sync_calls parts = concat (map fst parts)"

subsection \<open>Properties of traces\<close>

text \<open>\<open>all_before P Q\<close>: every call satisfying \<open>P\<close> is made before every call satisfying \<open>Q\<close>.\<close>

fun all_before :: "('e \<Rightarrow> bool) \<Rightarrow> ('e \<Rightarrow> bool) \<Rightarrow> 'e list \<Rightarrow> bool" where
  "all_before P Q [] = True"
| "all_before P Q (e # es) =
     ((if Q e then list_all (\<lambda>x. \<not> P x) es else True) \<and> all_before P Q es)"

text \<open>\<open>guarded_by P Q\<close>: no call satisfying \<open>Q\<close> is made until one satisfying \<open>P\<close> has been made.\<close>

fun guarded_by :: "('e \<Rightarrow> bool) \<Rightarrow> ('e \<Rightarrow> bool) \<Rightarrow> 'e list \<Rightarrow> bool" where
  "guarded_by P Q [] = True"
| "guarded_by P Q (e # es) = (if P e then True else (\<not> Q e \<and> guarded_by P Q es))"

text \<open>
  The validators only answer a question; every other call changes the state of the
  application or shows something to the user.
\<close>

definition is_query :: "('ctx, 'p, 'r, 'v, 'h) event \<Rightarrow> bool" where
  "is_query e = (is_ValidateForm e \<or> is_ValidateEmptyForm e \<or> is_ValidateEmptyFields e)"

definition effects :: "('ctx, 'p, 'r, 'v, 'h) event list \<Rightarrow> ('ctx, 'p, 'r, 'v, 'h) event list" where
  "effects tr = filter (\<lambda>e. \<not> is_query e) tr"

text \<open>The form contexts \<^verbatim>\<open>forms.map\<close> reaches: those before the first undefined one.\<close>

fun reached :: "'ctx option list \<Rightarrow> 'ctx list" where
  "reached [] = []"
| "reached (None # fs) = []"
| "reached (Some c # fs) = c # reached fs"

text \<open>The stages of a submission.\<close>

definition is_empty_check :: "('ctx, 'p, 'r, 'v, 'h) event \<Rightarrow> bool" where
  "is_empty_check e = (is_ValidateEmptyForm e \<or> is_ValidateEmptyFields e)"

fun is_confirmation :: "('ctx, 'p, 'r, 'v, 'h) event \<Rightarrow> bool" where
  "is_confirmation (SetIsEmptyFormModalOpen opened) = opened"
| "is_confirmation (Clicked control) = True"
| "is_confirmation HandleEmptyFormSubmission = True"
| "is_confirmation e = False"

fun is_close :: "('ctx, 'p, 'r, 'v, 'h) event \<Rightarrow> bool" where
  "is_close HandleClose = True"
| "is_close (OnSubmit results) = True"
| "is_close e = False"

definition is_notification :: "('ctx, 'p, 'r, 'v, 'h) event \<Rightarrow> bool" where
  "is_notification e = (is_ShowSnackbar e \<or> is_ShowToast e)"

text \<open>
  The order of the stages as the specification gives it: validate, empty check, confirm,
  process, post-submission actions, close or notify.
\<close>

definition stage_order_claimed :: "('ctx, 'p, 'r, 'v, 'h) event list \<Rightarrow> bool" where
  "stage_order_claimed tr =
     (all_before is_ValidateForm is_empty_check tr
      \<and> all_before is_empty_check is_confirmation tr
      \<and> all_before is_confirmation is_ProcessSubmission tr
      \<and> all_before is_ProcessSubmission is_ProcessPostSubmissionActions tr
      \<and> all_before is_ProcessPostSubmissionActions (\<lambda>e. is_close e \<or> is_notification e) tr)"

text \<open>
  The order with the success snackbar in its place, between the processors and the
  post-submission actions; closing and the error toast stay last.
\<close>

definition stage_order :: "('ctx, 'p, 'r, 'v, 'h) event list \<Rightarrow> bool" where
  "stage_order tr =
     (all_before is_ValidateForm is_empty_check tr
      \<and> all_before is_empty_check is_confirmation tr
      \<and> all_before is_confirmation is_ProcessSubmission tr
      \<and> all_before is_ProcessSubmission is_ProcessPostSubmissionActions tr
      \<and> all_before is_ProcessSubmission is_ShowSnackbar tr
      \<and> all_before is_ShowSnackbar is_ProcessPostSubmissionActions tr
      \<and> all_before is_ProcessPostSubmissionActions (\<lambda>e. is_close e \<or> is_ShowToast e) tr)"

text \<open>The number of the stage a call belongs to, for the calls that belong to one.\<close>

fun stage :: "('ctx, 'p, 'r, 'v, 'h) event \<Rightarrow> nat option" where
  "stage (ValidateForm f) = Some 0"
| "stage (ValidateEmptyForm f) = Some 1"
| "stage (ValidateEmptyFields f) = Some 1"
| "stage (SetIsEmptyFormModalOpen opened) = (if opened then Some 2 else None)"
| "stage (Clicked control) = Some 2"
| "stage HandleEmptyFormSubmission = Some 2"
| "stage (ProcessSubmission p c ac) = Some 3"
| "stage (ShowSnackbar s) = Some 4"
| "stage (ProcessPostSubmissionActions h rs m) = Some 5"
| "stage (OnSubmit rs) = Some 6"
| "stage HandleClose = Some 6"
| "stage (ShowToast d) = Some 6"
| "stage HandleDiscardForm = None"
| "stage (SetIsSubmitting b) = None"
| "stage HideFormCollapseToggle = None"
| "stage (Abort ac) = None"

fun stages :: "('ctx, 'p, 'r, 'v, 'h) event list \<Rightarrow> nat list" where
  "stages [] = []"
| "stages (e # es) = (case stage e of None \<Rightarrow> stages es | Some n \<Rightarrow> n # stages es)"

subsection \<open>A concrete provider\<close>

text \<open>
  Form contexts are numbered; the root form 0 and the sub-form 1 are registered, both
  valid and not empty; every processor resolves; there are post-submission handlers and
  an \<^verbatim>\<open>onSubmit\<close> prop.
\<close>

definition demo_env :: "(nat, string, string, string, unit) environment" where
  "demo_env =
     \<lparr>isSubmitting = True,
      sessionMode = ''enter'',
      onSubmit = True,
      handleEmptyFormSubmission = None,
      postSubmissionHandlers = Some (),
      t = (\<lambda>key defaultText. defaultText),
      validateForm = (\<lambda>formContext. True),
      validateEmptyForm = (\<lambda>formContext. False),
      validateEmptyFields = (\<lambda>formContext. False),
      processPostSubmissionActions = (\<lambda>handlers results. Fulfilled ()),
      processor = (\<lambda>formContext. ''EncounterFormProcessor''),
      processSubmission = (\<lambda>p formContext abortController. Resolved ''encounter''),
      typeErrorMessage = ''Cannot read properties of undefined (reading 'processor')''\<rparr>"

definition demo_state :: "nat provider_state" where
  "demo_state =
     registerForm ''obsGroup'' True 1
       (registerForm ''root'' False 0
          \<lparr>rootForm = None, subForms = [], isEmptyFormModalOpen = False\<rparr>)"

text \<open>The sub-form fails validation.\<close>

definition demo_invalid_env :: "(nat, string, string, string, unit) environment" where
  "demo_invalid_env = demo_env\<lparr>validateForm := (\<lambda>formContext. formContext \<noteq> Some 1)\<rparr>"

text \<open>Every form is empty; variant 2 finds empty fields in the sub-form.\<close>

definition demo_empty_env :: "(nat, string, string, string, unit) environment" where
  "demo_empty_env =
     demo_env\<lparr>validateEmptyForm := (\<lambda>formContext. True),
              validateEmptyFields := (\<lambda>formContext. formContext = Some 1)\<rparr>"

text \<open>As before, with a callback for empty forms whose promise rejects.\<close>

definition demo_callback_env :: "(nat, string, string, string, unit) environment" where
  "demo_callback_env =
     demo_empty_env\<lparr>handleEmptyFormSubmission :=
       Some (PromiseResult (Threw (OtherValue ''cancelled'')))\<rparr>"

text \<open>
  Both processors reject: the one of the sub-form first, with an \<^verbatim>\<open>Error\<close>; the one of
  the root form later, with a value that is not an \<^verbatim>\<open>Error\<close>.
\<close>

definition demo_rejecting_env :: "(nat, string, string, string, unit) environment" where
  "demo_rejecting_env =
     demo_env\<lparr>processSubmission :=
       (\<lambda>p formContext abortController.
          if formContext = 0 then Rejected 5 (OtherValue ''conflict'')
          else Rejected 3 (ErrorInstance ''boom''))\<rparr>"

text \<open>The promises of the processors are still pending.\<close>

definition demo_pending_env :: "(nat, string, string, string, unit) environment" where
  "demo_pending_env =
     demo_env\<lparr>processSubmission := (\<lambda>p formContext abortController. Pending)\<rparr>"


section \<open>Lemmas about the model\<close>

subsection \<open>Runs and array methods\<close>

lemma events_emit: "events (emit es r) = es @ events r"
  by (cases r) auto

lemma completed_emit: "completed (emit es r) = completed r"
  by (cases r) auto

lemma every_calls_all: "list_all p xs \<Longrightarrow> every_calls p xs = xs"
  by (induction xs) auto

lemma some_calls_none: "\<not> list_ex p xs \<Longrightarrow> some_calls p xs = xs"
  by (induction xs) auto

lemma forms_of_modal: "forms_of (st\<lparr>isEmptyFormModalOpen := b\<rparr>) = forms_of st"
  by (simp add: forms_of_def)

lemma effects_append: "effects (xs @ ys) = effects xs @ effects ys"
  by (simp add: effects_def)

lemma effects_validations: "effects (map ValidateForm xs) = []"
  by (simp add: effects_def is_query_def filter_empty_conv)

lemma effects_checks_v1: "effects (map ValidateEmptyForm xs) = []"
  by (simp add: effects_def is_query_def filter_empty_conv)

lemma effects_checks_v2: "effects (map ValidateEmptyFields xs) = []"
  by (simp add: effects_def is_query_def filter_empty_conv)

subsection \<open>Promises\<close>

lemma first_rejection_member:
  "first_rejection ps = Some (n, e) \<Longrightarrow> Rejected n e \<in> set ps"
  by (induction ps arbitrary: n e rule: first_rejection.induct)
     (auto split: option.splits if_splits)

lemma first_rejection_exists:
  "list_ex is_Rejected ps \<Longrightarrow> \<exists>n e. first_rejection ps = Some (n, e)"
  by (induction ps rule: first_rejection.induct) (auto split: option.splits)

lemma first_rejection_none:
  "first_rejection ps = None \<longleftrightarrow> \<not> list_ex is_Rejected ps"
  by (induction ps rule: first_rejection.induct) (auto split: option.splits)

lemma resolved_values_iff: "resolved_values ps = Some rs \<longleftrightarrow> ps = map Resolved rs"
  by (induction ps arbitrary: rs rule: resolved_values.induct) auto

lemma await_Promise_all_Fulfilled:
  "await_Promise_all ps = Fulfilled rs \<longleftrightarrow> ps = map Resolved rs"
proof
  assume "await_Promise_all ps = Fulfilled rs"
  then show "ps = map Resolved rs"
    by (auto simp: await_Promise_all_def resolved_values_iff split: option.splits)
next
  assume ps: "ps = map Resolved rs"
  then have "\<not> list_ex is_Rejected ps"
    by (simp add: list_ex_iff)
  then have "first_rejection ps = None"
    by (simp add: first_rejection_none)
  moreover have "resolved_values ps = Some rs"
    using ps by (simp add: resolved_values_iff)
  ultimately show "await_Promise_all ps = Fulfilled rs"
    by (simp add: await_Promise_all_def)
qed

lemma await_Promise_all_Threw:
  "await_Promise_all ps = Threw e \<longleftrightarrow> (\<exists>n. first_rejection ps = Some (n, e))"
  by (auto simp: await_Promise_all_def split: option.splits)

lemma await_Promise_all_Never:
  "await_Promise_all ps = Never \<Longrightarrow> Pending \<in> set ps"
proof -
  assume never: "await_Promise_all ps = Never"
  then have none: "first_rejection ps = None" and unresolved: "resolved_values ps = None"
    by (auto simp: await_Promise_all_def split: option.splits)
  from none have "\<not> list_ex is_Rejected ps"
    by (simp add: first_rejection_none)
  with unresolved show ?thesis
    by (induction ps rule: resolved_values.induct) auto
qed

subsection \<open>The submission block\<close>

lemma calls_map_processSubmission:
  "fst (map_processSubmission env fs ac) =
     map (\<lambda>c. ProcessSubmission (processor env c) c ac) (reached fs)"
  by (induction fs rule: reached.induct) (auto split: prod.splits)

lemma promises_map_processSubmission:
  "snd (map_processSubmission env fs ac) =
     (if list_all (\<lambda>f. f \<noteq> None) fs
      then Inr (map (\<lambda>c. processSubmission env (processor env c) c ac) (reached fs))
      else Inl (ErrorInstance (typeErrorMessage env)))"
  by (induction fs rule: reached.induct) (auto split: prod.splits)

lemma reached_map_Some: "reached (map Some cs) = cs"
  by (induction cs) auto

lemma handleFormSubmission_calls:
  "list_all (\<lambda>f. f \<noteq> None) fs \<Longrightarrow>
   handleFormSubmission env fs ac =
     (map (\<lambda>c. ProcessSubmission (processor env c) c ac) (reached fs),
      case await_Promise_all
             (map (\<lambda>c. processSubmission env (processor env c) c ac) (reached fs)) of
        Fulfilled results \<Rightarrow> after_results env results
      | Threw errorObject \<Rightarrow> Done (catch_block env errorObject)
      | Never \<Rightarrow> Hung [])"
  using calls_map_processSubmission [of env fs ac] promises_map_processSubmission [of env fs ac]
  by (cases "map_processSubmission env fs ac") (simp add: handleFormSubmission_def)

lemma handleFormSubmission_undefined:
  "\<not> list_all (\<lambda>f. f \<noteq> None) fs \<Longrightarrow>
   handleFormSubmission env fs ac =
     (map (\<lambda>c. ProcessSubmission (processor env c) c ac) (reached fs)
        @ catch_block env (ErrorInstance (typeErrorMessage env)),
      Done [])"
  using calls_map_processSubmission [of env fs ac] promises_map_processSubmission [of env fs ac]
  by (cases "map_processSubmission env fs ac") (simp add: handleFormSubmission_def)

subsection \<open>Stages\<close>

lemma stages_append: "stages (xs @ ys) = stages xs @ stages ys"
  by (induction xs) (auto split: option.splits)

text \<open>
  When the stage numbers never decrease along a trace, the calls of the stages up to \<open>k\<close>
  all come before the calls of the stages above \<open>k\<close>.
\<close>

lemma all_before_stages:
  assumes "sorted (stages tr)"
    and "\<And>e. P e \<Longrightarrow> \<exists>i\<le>k. stage e = Some i"
    and "\<And>e. Q e \<Longrightarrow> \<exists>j>k. stage e = Some j"
  shows "all_before P Q tr"
  using assms(1)
proof (induction tr)
  case Nil
  then show ?case by simp
next
  case (Cons e es)
  show ?case
  proof (cases "stage e")
    case None
    then have "\<not> Q e" using assms(3) by fastforce
    moreover have "all_before P Q es" using Cons None by simp
    ultimately show ?thesis by simp
  next
    case (Some n)
    then have sorted: "sorted (n # stages es)" using Cons.prems by simp
    then have rest: "all_before P Q es" using Cons.IH by simp
    have "list_all (\<lambda>x. \<not> P x) es" if q: "Q e"
    proof -
      from q obtain j where j: "k < j" "stage e = Some j" using assms(3) by blast
      with Some have nj: "n = j" by simp
      have "\<not> P x" if x: "x \<in> set es" for x
      proof
        assume "P x"
        then obtain i where i: "i \<le> k" "stage x = Some i" using assms(2) by blast
        from x i(2) have "i \<in> set (stages es)"
          by (induction es) (auto split: option.splits)
        with sorted have "n \<le> i" by simp
        with i(1) j(1) nj show False by simp
      qed
      then show ?thesis by (simp add: list_all_iff)
    qed
    with rest show ?thesis by simp
  qed
qed

lemma stage_order_stages:
  assumes "sorted (stages tr)"
  shows "stage_order tr"
  unfolding stage_order_def
proof (intro conjI)
  show "all_before is_ValidateForm is_empty_check tr"
    by (rule all_before_stages [where k = 0, OF assms]; case_tac e; simp add: is_empty_check_def)
  show "all_before is_empty_check is_confirmation tr"
    by (rule all_before_stages [where k = 1, OF assms]; case_tac e; simp add: is_empty_check_def)
  show "all_before is_confirmation is_ProcessSubmission tr"
    by (rule all_before_stages [where k = 2, OF assms]; case_tac e; simp)
  show "all_before is_ProcessSubmission is_ProcessPostSubmissionActions tr"
    by (rule all_before_stages [where k = 3, OF assms]; case_tac e; simp)
  show "all_before is_ProcessSubmission is_ShowSnackbar tr"
    by (rule all_before_stages [where k = 3, OF assms]; case_tac e; simp)
  show "all_before is_ShowSnackbar is_ProcessPostSubmissionActions tr"
    by (rule all_before_stages [where k = 4, OF assms]; case_tac e; simp)
  show "all_before is_ProcessPostSubmissionActions (\<lambda>e. is_close e \<or> is_ShowToast e) tr"
    by (rule all_before_stages [where k = 5, OF assms]; case_tac e; simp)
qed

lemma stages_validations: "stages (map ValidateForm xs) = replicate (length xs) 0"
  by (induction xs) auto

lemma stages_checks_v1: "stages (map ValidateEmptyForm xs) = replicate (length xs) 1"
  by (induction xs) auto

lemma stages_checks_v2: "stages (map ValidateEmptyFields xs) = replicate (length xs) 1"
  by (induction xs) auto

lemma stages_calls:
  "stages (map (\<lambda>c. ProcessSubmission (f c) c ac) cs) = replicate (length cs) 3"
  by (induction cs) auto

lemma stages_catch_block: "stages (catch_block env e) = [6]"
  by (simp add: catch_block_def split: thrown.splits)

lemma stages_hand_over: "stages (hand_over env rs) = [6]"
  by (simp add: hand_over_def)

lemma stages_after_results:
  "stages (events (after_results env rs)) \<in> {[4, 6], [4, 5, 6], [4, 5]}"
  by (simp add: after_results_def events_emit stages_append stages_catch_block stages_hand_over
      split: option.splits awaited.splits)

lemma stages_rest:
  "stages (events (snd (handleFormSubmission env fs ac)))
     \<in> {[], [6], [4, 6], [4, 5, 6], [4, 5]}"
  using stages_after_results [of env]
  by (cases "map_processSubmission env fs ac")
     (auto simp: handleFormSubmission_def stages_catch_block split: sum.splits awaited.splits)

lemma stages_sync:
  "\<exists>n. stages (fst (handleFormSubmission env fs ac)) = replicate n 3
     \<or> stages (fst (handleFormSubmission env fs ac)) = replicate n 3 @ [6]
        \<and> events (snd (handleFormSubmission env fs ac)) = []"
  using calls_map_processSubmission [of env fs ac]
  by (cases "map_processSubmission env fs ac")
     (auto simp: handleFormSubmission_def stages_catch_block stages_calls stages_append
       split: sum.splits)

lemma stages_block:
  "sorted (stages (fst (handleFormSubmission env fs ac) @ mid
                   @ events (snd (handleFormSubmission env fs ac))))"
  if "stages mid = []"
  using stages_sync [of env fs ac] stages_rest [of env fs ac] that
  by (auto simp: stages_append sorted_append)

lemma stages_block_bound:
  "n \<in> set (stages (fst (handleFormSubmission env fs ac))) \<Longrightarrow> 3 \<le> n"
  "n \<in> set (stages (events (snd (handleFormSubmission env fs ac)))) \<Longrightarrow> 3 \<le> n"
  using stages_sync [of env fs ac] stages_rest [of env fs ac]
  by auto

lemma sorted_stages_v1: "sorted (stages (events (handleFormSubmission_v1 env st ac)))"
  using stages_block [of "[]" env "forms_of st" ac]
  by (auto simp: handleFormSubmission_v1_def Let_def events_emit stages_append sorted_append
      stages_validations stages_checks_v1 run_of_def empty_form_v1_def
      dest!: stages_block_bound
      split: option.splits empty_result.splits awaited.splits)

lemma sorted_stages_v3: "sorted (stages (events (handleFormSubmission_v3 env st ac)))"
  using stages_block [of "[]" env "forms_of st" ac]
  by (auto simp: handleFormSubmission_v3_def Let_def events_emit stages_append sorted_append
      stages_validations stages_checks_v1 run_of_def
      dest!: stages_block_bound
      split: option.splits awaited.splits)

subsection \<open>The concrete provider\<close>

lemma forms_of_demo_state: "forms_of demo_state = [Some 0, Some 1]"
  by (simp add: forms_of_def demo_state_def registerForm_def object_values_def
      array_index_def is_digit_def List.map_filter_def)

lemma modal_closed_demo_state: "\<not> isEmptyFormModalOpen demo_state"
  by (simp add: demo_state_def registerForm_def)

lemma rootForm_demo_state: "rootForm demo_state = Some 0"
  by (simp add: demo_state_def registerForm_def)

lemma object_values_demo_state: "object_values (subForms demo_state) = [1]"
  by (simp add: demo_state_def registerForm_def object_values_def array_index_def
      is_digit_def List.map_filter_def)

lemmas demo_run_defs =
  useEffect_v2_def handleFormSubmission_def after_results_def
  hand_over_def catch_block_def success_snackbar_def await_Promise_all_def run_of_def
  modal_action_def IncompleteFormConfirmationModal_def handleIncompleteFormDiscard_def
  handleIncompleteFormConfirmation_def handleFormSubmission_v1_def handleFormSubmission_v3_def
  empty_form_v1_def await_result_def Let_def

lemmas demo_envs = demo_env_def demo_invalid_env_def demo_empty_env_def demo_callback_env_def
  demo_rejecting_env_def

subsection \<open>Guards\<close>

lemma guarded_by_after:
  "\<not> list_ex Q xs \<Longrightarrow> P e \<Longrightarrow> guarded_by P Q (xs @ e # ys)"
  by (induction xs) auto

lemma guarded_by_never: "\<not> list_ex Q tr \<Longrightarrow> guarded_by P Q tr"
  by (induction tr) auto

subsection \<open>What the submission block calls\<close>

lemma no_calls_after_results:
  "filter is_ProcessSubmission (events (after_results env rs)) = []"
  by (simp add: after_results_def events_emit hand_over_def catch_block_def
      split: option.splits awaited.splits thrown.splits)

lemma process_calls_sync:
  "filter is_ProcessSubmission (fst (handleFormSubmission env fs ac)) =
     map (\<lambda>c. ProcessSubmission (processor env c) c ac) (reached fs)"
  using calls_map_processSubmission [of env fs ac]
  by (cases "map_processSubmission env fs ac")
     (auto simp: handleFormSubmission_def catch_block_def filter_id_conv
        split: sum.splits thrown.splits)

lemma process_calls_rest:
  "filter is_ProcessSubmission (events (snd (handleFormSubmission env fs ac))) = []"
  by (cases "map_processSubmission env fs ac")
     (auto simp: handleFormSubmission_def catch_block_def no_calls_after_results
        split: sum.splits thrown.splits awaited.splits)

lemma forms_of_registered:
  "rootForm st = Some root \<Longrightarrow> reached (forms_of st) = root # object_values (subForms st)"
  by (simp add: forms_of_def reached_map_Some)

lemma forms_of_defined:
  "rootForm st = Some root \<Longrightarrow> list_all (\<lambda>f. f \<noteq> None) (forms_of st)"
  by (simp add: forms_of_def list_all_iff)

lemma effects_Nil: "effects [] = []"
  by (simp add: effects_def)

lemma effects_catch_block: "effects (catch_block env e) = catch_block env e"
  by (simp add: effects_def is_query_def catch_block_def split: thrown.splits)

lemma effects_after_results:
  "effects (events (after_results env rs)) = events (after_results env rs)"
  by (simp add: effects_def is_query_def after_results_def events_emit hand_over_def
      catch_block_def split: option.splits awaited.splits thrown.splits)

lemma effects_block:
  "effects (events (run_of (handleFormSubmission env fs ac)))
     = events (run_of (handleFormSubmission env fs ac))"
proof -
  have calls: "effects (map (\<lambda>c. ProcessSubmission (processor env c) c ac) cs)
      = map (\<lambda>c. ProcessSubmission (processor env c) c ac) cs" for cs
    by (simp add: effects_def is_query_def)
  show ?thesis
    using calls_map_processSubmission [of env fs ac]
    by (cases "map_processSubmission env fs ac")
       (auto simp: handleFormSubmission_def run_of_def events_emit effects_append calls
          effects_Nil effects_catch_block effects_after_results split: sum.splits awaited.splits)
qed

lemma processing_v1:
  assumes "isSubmitting env" and "list_all (validateForm env) (forms_of st)"
    and "\<not> list_all (validateEmptyForm env) (forms_of st) \<or> handleEmptyFormSubmission env = None"
  shows "handleFormSubmission_v1 env st ac =
     emit (map ValidateForm (forms_of st)
           @ map ValidateEmptyForm (every_calls (validateEmptyForm env) (forms_of st)))
       (run_of (handleFormSubmission env (forms_of st) ac))"
  using assms by (auto simp: handleFormSubmission_v1_def Let_def every_calls_all)

lemma processing_v3:
  assumes "isSubmitting env" and "list_all (validateForm env) (forms_of st)"
    and "\<not> list_all (validateEmptyForm env) (forms_of st) \<or> handleEmptyFormSubmission env = None"
  shows "handleFormSubmission_v3 env st ac =
     emit (map ValidateForm (forms_of st)
           @ map ValidateEmptyForm (every_calls (validateEmptyForm env) (forms_of st)))
       (run_of (handleFormSubmission env (forms_of st) ac))"
  using assms by (auto simp: handleFormSubmission_v3_def Let_def every_calls_all)

lemma processing_v2:
  assumes "isSubmitting env" and "list_all (validateForm env) (forms_of st)"
    and "\<not> list_ex (validateEmptyFields env) (forms_of st)"
  shows "fst (useEffect_v2 env st ac) =
     (emit (map ValidateForm (forms_of st) @ map ValidateEmptyFields (forms_of st))
        (run_of (handleFormSubmission env (forms_of st) ac)),
      st)"
  using assms by (simp add: useEffect_v2_def Let_def every_calls_all some_calls_none)

lemma process_calls_block:
  "filter is_ProcessSubmission (events (run_of (handleFormSubmission env fs ac))) =
     map (\<lambda>c. ProcessSubmission (processor env c) c ac) (reached fs)"
  by (simp add: run_of_def events_emit process_calls_sync process_calls_rest)

lemma block_resets:
  "completed (run_of (handleFormSubmission env fs ac)) \<Longrightarrow>
   SetIsSubmitting False \<in> set (events (run_of (handleFormSubmission env fs ac)))"
  by (cases "map_processSubmission env fs ac")
     (auto simp: handleFormSubmission_def run_of_def events_emit completed_emit
        catch_block_def after_results_def
        split: sum.splits awaited.splits option.splits thrown.splits)

lemma block_completes:
  assumes "list_all (\<lambda>c. processSubmission env (processor env c) c ac \<noteq> Pending) (reached fs)"
    and "\<forall>h rs. processPostSubmissionActions env h rs \<noteq> Never"
  shows "completed (run_of (handleFormSubmission env fs ac))"
proof (cases "list_all (\<lambda>f. f \<noteq> None) fs")
  case False
  then show ?thesis
    by (simp add: handleFormSubmission_undefined run_of_def)
next
  case True
  let ?ps = "map (\<lambda>c. processSubmission env (processor env c) c ac) (reached fs)"
  have "Pending \<notin> set ?ps"
    using assms(1) by (auto simp: list_all_iff)
  then have settled: "await_Promise_all ?ps \<noteq> Never"
    using await_Promise_all_Never by blast
  have "completed (after_results env rs)" for rs
    using assms(2)
    by (auto simp: after_results_def completed_emit split: option.splits awaited.splits)
  with settled show ?thesis
    by (simp add: handleFormSubmission_calls [OF True] run_of_def completed_emit
        split: awaited.splits)
qed

text \<open>
  The token every processor receives is aborted by the cleanup of variants 1 and 3;
  the effect of variant 2 returns no cleanup.
\<close>

lemma cleanup_v1: "teardown (snd (useEffect_v1 env st ac)) = [Abort ac]"
  by (simp add: useEffect_v1_def teardown_def)

lemma cleanup_v3: "teardown (snd (useEffect_v3 env st ac)) = [Abort ac]"
  by (simp add: useEffect_v3_def teardown_def)

lemma cleanup_v2: "teardown (snd (useEffect_v2 env st ac)) = []"
  by (simp add: useEffect_v2_def teardown_def)

subsection \<open>Renders and the registry of forms\<close>

lemma effect_parts_v2_flat:
  "fst (useEffect_v2 env st ac) =
     (run_of (fst (effect_parts_v2 env st ac)), snd (effect_parts_v2 env st ac))"
  by (simp add: useEffect_v2_def effect_parts_v2_def Let_def run_of_def)
     (cases "snd (handleFormSubmission env (forms_of st) ac)"; simp)

lemma confirmation_parts_flat:
  "handleIncompleteFormConfirmation env st ac =
     (run_of (fst (confirmation_parts env st ac)), snd (confirmation_parts env st ac))"
  by (simp add: handleIncompleteFormConfirmation_def confirmation_parts_def Let_def run_of_def)

lemma discard_parts_flat:
  "handleIncompleteFormDiscard st = (run_of (fst (discard_parts st)), snd (discard_parts st))"
  by (simp add: handleIncompleteFormDiscard_def discard_parts_def run_of_def)

lemma modal_action_parts:
  "modal_action env st ac control =
     (if isEmptyFormModalOpen st then
        Some (run_of (fst (IncompleteFormConfirmationModal
                             (discard_parts st) (confirmation_parts env st ac) control)),
              snd (IncompleteFormConfirmationModal
                     (discard_parts st) (confirmation_parts env st ac) control))
      else None)"
  by (simp add: modal_action_def IncompleteFormConfirmationModal_def confirmation_parts_flat
      discard_parts_flat split: modal_control.splits)

lemma effect_parts_v2_open:
  "isEmptyFormModalOpen st \<Longrightarrow> snd (effect_parts_v2 env st ac) = st"
  by (simp add: effect_parts_v2_def Let_def)

lemma mset_object_values: "mset (object_values obj) = mset (map snd obj)"
proof -
  have "image_mset snd (mset (List.map_filter
            (\<lambda>(k, v). map_option (\<lambda>i. (i, v)) (array_index k)) obj))
        + image_mset snd (mset (filter (\<lambda>(k, v). array_index k = None) obj))
        = image_mset snd (mset obj)"
    by (induction obj) (auto simp: List.map_filter_simps split: option.splits)
  then show ?thesis
    by (simp add: object_values_def)
qed

lemma registerForm_subForm:
  "map_of (subForms (registerForm formId True formContext st))
     = (map_of (subForms st))(formId \<mapsto> formContext)"
  by (simp add: registerForm_def AList.update_conv')

lemma registerForm_root:
  "rootForm (registerForm formId False formContext st) = Some formContext
   \<and> subForms (registerForm formId False formContext st) = subForms st"
  by (simp add: registerForm_def)

lemma effect_runs_same:
  "effect_runs effect n (Some b) cleanup (replicate k b) = []"
  by (induction k arbitrary: n) auto

subsection \<open>Stages in the runs of variant 2\<close>

lemma sorted_stages_effect_v2:
  "sorted (stages (events (fst (fst (useEffect_v2 env st ac)))))"
  using stages_block [of "[]" env "forms_of st" ac]
  by (auto simp: useEffect_v2_def Let_def events_emit stages_append sorted_append
      stages_validations stages_checks_v2 run_of_def
      dest!: stages_block_bound)

lemma sorted_stages_confirmation:
  "sorted (stages (Clicked control
                   # events (fst (handleIncompleteFormConfirmation env st ac))))"
  using stages_block [of "[SetIsEmptyFormModalOpen False]" env "forms_of st" ac]
  by (auto simp: handleIncompleteFormConfirmation_def Let_def events_emit stages_append
      dest!: stages_block_bound)

lemma sorted_stages_discard:
  "sorted (stages (Clicked control # events (fst (handleIncompleteFormDiscard st))))"
  by (simp add: handleIncompleteFormDiscard_def)

lemma events_run_of: "events (run_of p) = fst p @ events (snd p)"
  by (simp add: run_of_def events_emit)

lemma sorted_stages_render_once:
  "sorted (stages (events (run_of (fst (render_once_v2 env c)))))"
  using sorted_stages_effect_v2
    [of "env\<lparr>isSubmitting := submitting c\<rparr>" "provider c" "Suc (renders c)"]
  by (simp add: render_once_v2_def Let_def effect_parts_v2_flat)

lemma sorted_stages_render:
  "list_all (\<lambda>p. sorted (stages (events (run_of p)))) (fst (render_v2 env c))"
  by (simp add: render_v2_def Let_def sorted_stages_render_once)

lemma sorted_stages_step:
  "list_all (\<lambda>p. sorted (stages (events (run_of p)))) (fst (step_v2 env i c))"
proof (cases i)
  case (Render b)
  then show ?thesis
    by (simp add: step_v2_def sorted_stages_render)
next
  case (Click control)
  let ?handler = "IncompleteFormConfirmationModal (discard_parts (provider c))
                    (confirmation_parts env (provider c) (renders c)) control"
  have "sorted (stages (Clicked control
          # events (run_of (fst (confirmation_parts env (provider c) (renders c))))))"
    using sorted_stages_confirmation [of control env "provider c" "renders c"]
    by (simp add: confirmation_parts_flat)
  moreover have "sorted (stages (Clicked control
          # events (run_of (fst (discard_parts (provider c))))))"
    by (simp add: discard_parts_def events_run_of)
  ultimately have "sorted (stages (Clicked control # events (run_of (fst ?handler))))"
    by (cases control) (simp_all add: IncompleteFormConfirmationModal_def)
  then have "sorted (stages (events
      (run_of (Clicked control # fst (fst ?handler), snd (fst ?handler)))))"
    by (simp add: run_of_def events_emit)
  with Click show ?thesis
    by (simp add: step_v2_def Let_def sorted_stages_render)
qed

lemma sorted_stages_lifecycle:
  "list_all (\<lambda>p. sorted (stages (events (run_of p)))) (lifecycle_v2 env c inputs)"
  by (induction inputs arbitrary: c) (simp_all add: sorted_stages_step)

lemma stage_order_lifecycle:
  "list_all (\<lambda>p. stage_order (events (run_of p))) (lifecycle_v2 env c inputs)"
  using sorted_stages_lifecycle [of env c inputs]
  by (simp add: list_all_iff stage_order_stages)

lemmas lifecycle_defs =
  step_v2_def render_v2_def render_once_v2_def effect_parts_v2_def confirmation_parts_def
  discard_parts_def mount_v2_def sync_calls_def lifecycle_v1_def lifecycle_v3_def
  useEffect_v1_def useEffect_v3_def

lemma forms_of_mount_demo_state:
  "forms_of \<lparr>rootForm = rootForm demo_state, subForms = subForms demo_state,
            isEmptyFormModalOpen = b\<rparr> = [Some 0, Some 1]"
  using forms_of_demo_state by (simp add: forms_of_def)

lemma demo_plain_run_v1:
  "events (handleFormSubmission_v1 demo_env demo_state 7) =
     [ValidateForm (Some 0), ValidateForm (Some 1), ValidateEmptyForm (Some 0),
      ProcessSubmission ''EncounterFormProcessor'' 0 7,
      ProcessSubmission ''EncounterFormProcessor'' 1 7,
      SetIsSubmitting False,
      ShowSnackbar (Snackbar ''Form submitted'' ''Form submitted successfully'' ''success'' True),
      ProcessPostSubmissionActions () [''encounter'', ''encounter''] ''enter'',
      HideFormCollapseToggle, OnSubmit [''encounter'', ''encounter'']]"
  by (simp add: demo_run_defs forms_of_demo_state demo_envs)

lemma demo_modal_rerun:
  "sync_calls (lifecycle_v2 demo_empty_env (mount_v2 demo_state) [Render True]) =
     [ValidateForm (Some 0), ValidateForm (Some 1),
      ValidateEmptyFields (Some 0), ValidateEmptyFields (Some 1),
      SetIsEmptyFormModalOpen True,
      ValidateForm (Some 0), ValidateForm (Some 1),
      ValidateEmptyFields (Some 0), ValidateEmptyFields (Some 1),
      SetIsEmptyFormModalOpen True]"
  by (simp add: lifecycle_defs Let_def forms_of_mount_demo_state forms_of_modal demo_envs)





subsection \<open>The life of variant 2 with valid and empty forms\<close>

lemma guarded_by_append:
  "guarded_by P Q (xs @ ys) =
     (if list_ex P xs then guarded_by P Q xs else \<not> list_ex Q xs \<and> guarded_by P Q ys)"
  by (induction xs) auto

lemma sync_calls_append: "sync_calls (ps @ qs) = sync_calls ps @ sync_calls qs"
  by (simp add: sync_calls_def)

lemma forms_of_provider:
  "forms_of (provider (mount_v2 st)) = forms_of st"
  by (simp add: mount_v2_def forms_of_def)

text \<open>No call of a processor is made after an await.\<close>

lemma rest_quiet:
  "\<not> list_ex is_ProcessSubmission (events (snd (handleFormSubmission env fs ac)))"
  using process_calls_rest [of env fs ac]
  by (simp add: list_ex_iff filter_empty_conv)

lemma rest_quiet_render_once:
  "\<not> list_ex is_ProcessSubmission (events (snd (fst (render_once_v2 env c))))"
  by (simp add: render_once_v2_def effect_parts_v2_def Let_def rest_quiet)

lemma rest_quiet_render:
  "list_all (\<lambda>p. \<not> list_ex is_ProcessSubmission (events (snd p))) (fst (render_v2 env c))"
  by (simp add: render_v2_def Let_def rest_quiet_render_once)

lemma rest_quiet_step:
  "list_all (\<lambda>p. \<not> list_ex is_ProcessSubmission (events (snd p))) (fst (step_v2 env i c))"
  by (cases i)
     (simp_all add: step_v2_def Let_def rest_quiet_render IncompleteFormConfirmationModal_def
        confirmation_parts_def discard_parts_def rest_quiet
        split: modal_control.splits)

lemma rest_quiet_lifecycle:
  "list_all (\<lambda>p. \<not> list_ex is_ProcessSubmission (events (snd p))) (lifecycle_v2 env c inputs)"
  by (induction inputs arbitrary: c) (simp_all add: rest_quiet_step)

text \<open>The runs of the effect while every form is valid and some form has empty fields.\<close>

lemma render_once_empty:
  assumes "list_all (validateForm env) (forms_of (provider c))"
    and "list_ex (validateEmptyFields env) (forms_of (provider c))"
  shows "\<not> list_ex is_ProcessSubmission (fst (fst (render_once_v2 env c)))"
    and "forms_of (provider (snd (render_once_v2 env c))) = forms_of (provider c)"
    and "submitting c \<Longrightarrow> isEmptyFormModalOpen (provider (snd (render_once_v2 env c)))"
    and "submitting c \<Longrightarrow>
           list_ex (\<lambda>e. e = SetIsEmptyFormModalOpen True) (fst (fst (render_once_v2 env c)))"
    and "\<not> submitting c \<Longrightarrow> fst (fst (render_once_v2 env c)) = []"
    and "\<not> submitting c \<Longrightarrow> provider (snd (render_once_v2 env c)) = provider c"
  using assms
  by (auto simp: render_once_v2_def effect_parts_v2_def Let_def forms_of_modal list_ex_iff)

lemma submitting_render_once: "submitting (snd (render_once_v2 env c)) = submitting c"
  by (simp add: render_once_v2_def Let_def)

lemma render_empty:
  assumes "list_all (validateForm env) (forms_of (provider c))"
    and "list_ex (validateEmptyFields env) (forms_of (provider c))"
  shows "\<not> list_ex is_ProcessSubmission (sync_calls (fst (render_v2 env c)))"
    and "forms_of (provider (snd (render_v2 env c))) = forms_of (provider c)"
    and "list_ex (\<lambda>e. e = SetIsEmptyFormModalOpen True) (sync_calls (fst (render_v2 env c)))
         \<or> sync_calls (fst (render_v2 env c)) = []
            \<and> isEmptyFormModalOpen (provider (snd (render_v2 env c)))
              = isEmptyFormModalOpen (provider c)"
proof -
  let ?c1 = "snd (render_once_v2 env c)"
  have forms1: "forms_of (provider ?c1) = forms_of (provider c)"
    using assms by (rule render_once_empty(2))
  then have h1: "list_all (validateForm env) (forms_of (provider ?c1))"
      "list_ex (validateEmptyFields env) (forms_of (provider ?c1))"
    using assms by simp_all
  show "\<not> list_ex is_ProcessSubmission (sync_calls (fst (render_v2 env c)))"
    using render_once_empty(1) [OF assms] render_once_empty(1) [OF h1]
    by (simp add: render_v2_def Let_def sync_calls_def)
  show "forms_of (provider (snd (render_v2 env c))) = forms_of (provider c)"
    using forms1 render_once_empty(2) [OF h1]
    by (simp add: render_v2_def Let_def)
  show "list_ex (\<lambda>e. e = SetIsEmptyFormModalOpen True) (sync_calls (fst (render_v2 env c)))
         \<or> sync_calls (fst (render_v2 env c)) = []
            \<and> isEmptyFormModalOpen (provider (snd (render_v2 env c)))
              = isEmptyFormModalOpen (provider c)"
  proof (cases "submitting c")
    case True
    from render_once_empty(4) [OF assms True] show ?thesis
      by (simp add: render_v2_def Let_def sync_calls_def)
  next
    case False
    from render_once_empty(5,6) [OF assms False] show ?thesis
      by (simp add: render_v2_def Let_def sync_calls_def)
  qed
qed

lemma step_empty:
  assumes "list_all (validateForm env) (forms_of (provider c))"
    and "list_ex (validateEmptyFields env) (forms_of (provider c))"
  shows "forms_of (provider (snd (step_v2 env i c))) = forms_of (provider c)"
    and "i \<noteq> Click ConfirmButton \<Longrightarrow>
           \<not> list_ex is_ProcessSubmission (sync_calls (fst (step_v2 env i c)))"
    and "guarded_by (\<lambda>e. e = Clicked ConfirmButton) is_ProcessSubmission
           (sync_calls (fst (step_v2 env i c)))"
    and "list_ex (\<lambda>e. e = Clicked ConfirmButton) (sync_calls (fst (step_v2 env i c)))
         \<or> \<not> list_ex is_ProcessSubmission (sync_calls (fst (step_v2 env i c)))"
    and "\<not> isEmptyFormModalOpen (provider c) \<Longrightarrow>
           \<not> list_ex is_ProcessSubmission (sync_calls (fst (step_v2 env i c)))
           \<and> (list_ex (\<lambda>e. e = SetIsEmptyFormModalOpen True)
                 (sync_calls (fst (step_v2 env i c)))
               \<or> \<not> isEmptyFormModalOpen (provider (snd (step_v2 env i c))))"
proof -
  let ?handler = "\<lambda>control. IncompleteFormConfirmationModal (discard_parts (provider c))
                    (confirmation_parts env (provider c) (renders c)) control"
  have handler_forms: "forms_of (snd (?handler control)) = forms_of (provider c)" for control
    by (cases control)
       (simp_all add: IncompleteFormConfirmationModal_def confirmation_parts_def
          discard_parts_def Let_def forms_of_modal)
  have after: "list_all (validateForm env)
                 (forms_of (provider (c\<lparr>provider := snd (?handler control)\<rparr>)))"
      "list_ex (validateEmptyFields env)
                 (forms_of (provider (c\<lparr>provider := snd (?handler control)\<rparr>)))" for control
    using assms by (simp_all add: handler_forms)
  have prepared: "list_all (validateForm env) (forms_of (provider (c\<lparr>submitting := b\<rparr>)))"
      "list_ex (validateEmptyFields env) (forms_of (provider (c\<lparr>submitting := b\<rparr>)))" for b
    using assms by simp_all
  have discard_quiet: "\<not> list_ex is_ProcessSubmission (fst (fst (?handler control)))"
    if "control \<noteq> ConfirmButton" for control
    using that
    by (cases control) (simp_all add: IncompleteFormConfirmationModal_def discard_parts_def)
  show "forms_of (provider (snd (step_v2 env i c))) = forms_of (provider c)"
  proof (cases i)
    case (Render b)
    then show ?thesis
      using render_empty(2) [OF prepared, of b] by (simp add: step_v2_def)
  next
    case (Click control)
    then show ?thesis
      using render_empty(2) [OF after, of control]
      by (simp add: step_v2_def Let_def handler_forms)
  qed
  show quiet: "\<not> list_ex is_ProcessSubmission (sync_calls (fst (step_v2 env i c)))"
    if "i \<noteq> Click ConfirmButton"
  proof (cases i)
    case (Render b)
    then show ?thesis
      using render_empty(1) [OF prepared, of b] by (simp add: step_v2_def)
  next
    case (Click control)
    with that have "control \<noteq> ConfirmButton" by simp
    from discard_quiet [OF this] render_empty(1) [OF after, of control] Click show ?thesis
      by (simp add: step_v2_def Let_def sync_calls_def)
  qed
  show guarded: "guarded_by (\<lambda>e. e = Clicked ConfirmButton) is_ProcessSubmission
           (sync_calls (fst (step_v2 env i c)))"
  proof (cases "i = Click ConfirmButton")
    case True
    then show ?thesis
      by (simp add: step_v2_def Let_def sync_calls_def)
  next
    case False
    then show ?thesis
      by (intro guarded_by_never quiet)
  qed
  show "list_ex (\<lambda>e. e = Clicked ConfirmButton) (sync_calls (fst (step_v2 env i c)))
         \<or> \<not> list_ex is_ProcessSubmission (sync_calls (fst (step_v2 env i c)))"
  proof (cases "i = Click ConfirmButton")
    case True
    then show ?thesis
      by (simp add: step_v2_def Let_def sync_calls_def)
  next
    case False
    then show ?thesis
      using quiet by simp
  qed
  show "\<not> list_ex is_ProcessSubmission (sync_calls (fst (step_v2 env i c)))
           \<and> (list_ex (\<lambda>e. e = SetIsEmptyFormModalOpen True)
                 (sync_calls (fst (step_v2 env i c)))
               \<or> \<not> isEmptyFormModalOpen (provider (snd (step_v2 env i c))))"
    if closed: "\<not> isEmptyFormModalOpen (provider c)"
  proof (cases i)
    case (Render b)
    then show ?thesis
      using render_empty(1,3) [OF prepared, of b] closed
      by (auto simp: step_v2_def)
  next
    case (Click control)
    then show ?thesis
      using closed by (simp add: step_v2_def sync_calls_def)
  qed
qed

lemma lifecycle_confirmed:
  assumes "list_all (validateForm env) (forms_of (provider c))"
    and "list_ex (validateEmptyFields env) (forms_of (provider c))"
  shows "guarded_by (\<lambda>e. e = Clicked ConfirmButton) is_ProcessSubmission
           (sync_calls (lifecycle_v2 env c inputs))"
  using assms
proof (induction inputs arbitrary: c)
  case Nil
  show ?case by (simp add: sync_calls_def)
next
  case (Cons i inputs)
  from Cons.prems have "guarded_by (\<lambda>e. e = Clicked ConfirmButton) is_ProcessSubmission
           (sync_calls (lifecycle_v2 env (snd (step_v2 env i c)) inputs))"
    by (intro Cons.IH) (simp_all add: step_empty(1))
  with step_empty(3,4) [OF Cons.prems, of i] show ?case
    by (auto simp: sync_calls_append guarded_by_append)
qed

lemma lifecycle_unconfirmed:
  assumes "list_all (validateForm env) (forms_of (provider c))"
    and "list_ex (validateEmptyFields env) (forms_of (provider c))"
    and "Click ConfirmButton \<notin> set inputs"
  shows "\<not> list_ex is_ProcessSubmission (sync_calls (lifecycle_v2 env c inputs))"
  using assms
proof (induction inputs arbitrary: c)
  case Nil
  show ?case by (simp add: sync_calls_def)
next
  case (Cons i inputs)
  from Cons.prems have "\<not> list_ex is_ProcessSubmission
           (sync_calls (lifecycle_v2 env (snd (step_v2 env i c)) inputs))"
    by (intro Cons.IH) (simp_all add: step_empty(1))
  moreover from Cons.prems(3) have "i \<noteq> Click ConfirmButton"
    by auto
  ultimately show ?case
    using step_empty(2) [OF Cons.prems(1,2), of i]
    by (simp add: sync_calls_append)
qed

lemma lifecycle_opened:
  assumes "list_all (validateForm env) (forms_of (provider c))"
    and "list_ex (validateEmptyFields env) (forms_of (provider c))"
    and "\<not> isEmptyFormModalOpen (provider c)"
  shows "guarded_by (\<lambda>e. e = SetIsEmptyFormModalOpen True) is_ProcessSubmission
           (sync_calls (lifecycle_v2 env c inputs))"
  using assms
proof (induction inputs arbitrary: c)
  case Nil
  show ?case by (simp add: sync_calls_def)
next
  case (Cons i inputs)
  let ?xs = "sync_calls (fst (step_v2 env i c))"
  from step_empty(5) [OF Cons.prems, of i]
  have quiet: "\<not> list_ex is_ProcessSubmission ?xs"
    and after: "list_ex (\<lambda>e. e = SetIsEmptyFormModalOpen True) ?xs
                \<or> \<not> isEmptyFormModalOpen (provider (snd (step_v2 env i c)))"
    by simp_all
  show ?case
  proof (cases "list_ex (\<lambda>e. e = SetIsEmptyFormModalOpen True) ?xs")
    case True
    with quiet show ?thesis
      by (simp add: sync_calls_append guarded_by_append guarded_by_never)
  next
    case False
    with after have "\<not> isEmptyFormModalOpen (provider (snd (step_v2 env i c)))"
      by simp
    with Cons.prems have "guarded_by (\<lambda>e. e = SetIsEmptyFormModalOpen True)
        is_ProcessSubmission (sync_calls (lifecycle_v2 env (snd (step_v2 env i c)) inputs))"
      by (intro Cons.IH) (simp_all add: step_empty(1))
    with False quiet show ?thesis
      by (simp add: sync_calls_append guarded_by_append)
  qed
qed

text \<open>
  One run of the effect on valid forms that are not empty: apart from the validators it
  makes the calls of the submission block, one \<^verbatim>\<open>processSubmission\<close> call for each form,
  and hands the results on.
\<close>

lemma forms_submitted_once_per_run:
  assumes "isSubmitting env"
    and "rootForm st = Some root"
    and "list_all (validateForm env) (forms_of st)"
    and "\<not> list_all (validateEmptyForm env) (forms_of st)"
    and "\<not> list_ex (validateEmptyFields env) (forms_of st)"
    and "map (\<lambda>c. processSubmission env (processor env c) c ac)
           (root # object_values (subForms st)) = map Resolved results"
  shows "effects (events (handleFormSubmission_v1 env st ac))
           = events (run_of (handleFormSubmission env (forms_of st) ac))
       \<and> effects (events (fst (fst (useEffect_v2 env st ac))))
           = events (run_of (handleFormSubmission env (forms_of st) ac))
       \<and> effects (events (handleFormSubmission_v3 env st ac))
           = events (run_of (handleFormSubmission env (forms_of st) ac))
       \<and> filter is_ProcessSubmission (events (run_of (handleFormSubmission env (forms_of st) ac)))
           = map (\<lambda>c. ProcessSubmission (processor env c) c ac)
               (root # object_values (subForms st))
       \<and> (\<forall>h rs m. ProcessPostSubmissionActions h rs m
              \<in> set (events (run_of (handleFormSubmission env (forms_of st) ac)))
            \<longrightarrow> rs = results)
       \<and> (\<forall>rs. OnSubmit rs \<in> set (events (run_of (handleFormSubmission env (forms_of st) ac)))
            \<longrightarrow> rs = results)
       \<and> (\<forall>h. postSubmissionHandlers env = Some h
            \<longrightarrow> ProcessPostSubmissionActions h results (sessionMode env)
                  \<in> set (events (run_of (handleFormSubmission env (forms_of st) ac))))
       \<and> (onSubmit env
            \<and> (\<forall>h. postSubmissionHandlers env = Some h
                  \<longrightarrow> processPostSubmissionActions env h results = Fulfilled ())
            \<longrightarrow> OnSubmit results
                  \<in> set (events (run_of (handleFormSubmission env (forms_of st) ac))))"
proof -
  let ?block = "run_of (handleFormSubmission env (forms_of st) ac)"
  let ?calls = "map (\<lambda>c. ProcessSubmission (processor env c) c ac)
                  (root # object_values (subForms st))"
  have reached: "reached (forms_of st) = root # object_values (subForms st)"
    using assms(2) by (rule forms_of_registered)
  have "await_Promise_all (map (\<lambda>c. processSubmission env (processor env c) c ac)
          (reached (forms_of st))) = Fulfilled results"
    using assms(6) by (simp add: reached await_Promise_all_Fulfilled)
  with handleFormSubmission_calls [OF forms_of_defined [OF assms(2)], of env ac]
  have block: "events ?block = ?calls @ events (after_results env results)"
    by (simp add: run_of_def events_emit reached)
  have v1: "effects (events (handleFormSubmission_v1 env st ac)) = events ?block"
    using assms(1,3,4)
    by (simp add: processing_v1 events_emit effects_append effects_validations
        effects_checks_v1 effects_block)
  have v2: "effects (events (fst (fst (useEffect_v2 env st ac)))) = events ?block"
    using assms(1,3,5)
    by (simp add: processing_v2 events_emit effects_append effects_validations
        effects_checks_v2 effects_block)
  have v3: "effects (events (handleFormSubmission_v3 env st ac)) = events ?block"
    using assms(1,3,4)
    by (simp add: processing_v3 events_emit effects_append effects_validations
        effects_checks_v1 effects_block)
  have calls: "filter is_ProcessSubmission (events ?block) = ?calls"
    by (simp add: process_calls_block reached)
  have forwarded:
    "(\<forall>h rs m. ProcessPostSubmissionActions h rs m \<in> set (events ?block) \<longrightarrow> rs = results)
     \<and> (\<forall>rs. OnSubmit rs \<in> set (events ?block) \<longrightarrow> rs = results)
     \<and> (\<forall>h. postSubmissionHandlers env = Some h
            \<longrightarrow> ProcessPostSubmissionActions h results (sessionMode env) \<in> set (events ?block))
     \<and> (onSubmit env
            \<and> (\<forall>h. postSubmissionHandlers env = Some h
                  \<longrightarrow> processPostSubmissionActions env h results = Fulfilled ())
            \<longrightarrow> OnSubmit results \<in> set (events ?block))"
    unfolding block
    by (auto simp: after_results_def events_emit hand_over_def catch_block_def
        split: option.splits awaited.splits thrown.splits)
  from v1 v2 v3 calls forwarded show ?thesis
    by blast
qed

lemma process_calls_registered:
  assumes "rootForm st = Some root"
  shows "mset (filter is_ProcessSubmission
                 (events (run_of (handleFormSubmission env (forms_of st) ac))))
           = mset (map (\<lambda>c. ProcessSubmission (processor env c) c ac)
                     (root # map snd (subForms st)))"
  using forms_of_registered [OF assms]
  by (simp add: process_calls_block mset_object_values multiset.map_comp)

section \<open>The claims\<close>

text \<open>
  Claim C1, amended. Within every run of the submission function the calls keep the
  order of the stages, with the success snackbar in its place: every validation comes
  before every empty check, every empty check before the confirmation (the opening of the
  modal, the user's click, the call of \<^verbatim>\<open>handleEmptyFormSubmission\<close>), the confirmation
  before every \<^verbatim>\<open>processSubmission\<close> call, every \<^verbatim>\<open>processSubmission\<close> call before the
  success snackbar, the success snackbar before the post-submission actions, and the
  post-submission actions before \<^verbatim>\<open>onSubmit\<close>, \<^verbatim>\<open>handleClose\<close> and any error toast. The
  post-submission actions run only when every form context was defined and every promise
  the processors returned has resolved. A run is: in variants 1 and 3 the run of the
  effect, which React starts once for each change of \<^verbatim>\<open>isSubmitting\<close> (lemma
  \<open>effect_runs_same\<close>); in variant 2 a run of the effect or a run of a handler of the
  modal, as they occur in any sequence of renders and clicks.
\<close>

theorem C1_stage_order:
  "stage_order (events (handleFormSubmission_v1 env st ac))
   \<and> stage_order (events (handleFormSubmission_v3 env st ac))
   \<and> stage_order (events (fst (fst (useEffect_v2 env st ac))))
   \<and> stage_order (Clicked ConfirmButton
                   # events (fst (handleIncompleteFormConfirmation env st ac)))
   \<and> stage_order (Clicked control # events (fst (handleIncompleteFormDiscard st)))
   \<and> list_all (\<lambda>p. stage_order (events (run_of p))) (lifecycle_v2 env c inputs)
   \<and> (list_ex is_ProcessPostSubmissionActions
         (events (run_of (handleFormSubmission env fs ac)))
       \<longrightarrow> list_all (\<lambda>f. f \<noteq> None) fs
           \<and> list_all is_Resolved
               (map (\<lambda>c. processSubmission env (processor env c) c ac) (reached fs)))"
proof (intro conjI impI)
  show "stage_order (events (handleFormSubmission_v1 env st ac))"
    by (intro stage_order_stages sorted_stages_v1)
  show "stage_order (events (handleFormSubmission_v3 env st ac))"
    by (intro stage_order_stages sorted_stages_v3)
  show "stage_order (events (fst (fst (useEffect_v2 env st ac))))"
    by (intro stage_order_stages sorted_stages_effect_v2)
  show "stage_order (Clicked ConfirmButton
                     # events (fst (handleIncompleteFormConfirmation env st ac)))"
    by (intro stage_order_stages sorted_stages_confirmation)
  show "stage_order (Clicked control # events (fst (handleIncompleteFormDiscard st)))"
    by (intro stage_order_stages sorted_stages_discard)
  show "list_all (\<lambda>p. stage_order (events (run_of p))) (lifecycle_v2 env c inputs)"
    by (rule stage_order_lifecycle)
next
  let ?ps = "map (\<lambda>c. processSubmission env (processor env c) c ac) (reached fs)"
  assume post: "list_ex is_ProcessPostSubmissionActions
                  (events (run_of (handleFormSubmission env fs ac)))"
  show defined: "list_all (\<lambda>f. f \<noteq> None) fs"
  proof (rule ccontr)
    assume "\<not> list_all (\<lambda>f. f \<noteq> None) fs"
    from handleFormSubmission_undefined [OF this, of env ac] post show False
      by (auto simp: run_of_def catch_block_def list_ex_iff split: thrown.splits)
  qed
  show "list_all is_Resolved ?ps"
  proof (cases "await_Promise_all ?ps")
    case (Fulfilled rs)
    then have "?ps = map Resolved rs" by (simp add: await_Promise_all_Fulfilled)
    then show ?thesis by (simp add: list_all_iff)
  next
    case (Threw e)
    with handleFormSubmission_calls [OF defined, of env ac] post show ?thesis
      by (auto simp: run_of_def catch_block_def list_ex_iff split: thrown.splits)
  next
    case Never
    with handleFormSubmission_calls [OF defined, of env ac] post show ?thesis
      by (auto simp: run_of_def list_ex_iff)
  qed
qed

text \<open>
  The order as the claim states it fails in two ways. On a plain successful submission
  the success snackbar is shown before the post-submission actions run. In variant 2 the
  effect opens the modal, the change of state renders the component again and the effect
  runs again: the forms are validated and checked a second time after the modal has
  been opened, so across the runs of variant 2 neither the order of the claim nor the
  order above is kept.
\<close>

theorem C1_stage_order_claimed_counterexample:
  "\<not> stage_order_claimed (events (handleFormSubmission_v1 demo_env demo_state 7))
   \<and> \<not> stage_order_claimed
         (sync_calls (lifecycle_v2 demo_empty_env (mount_v2 demo_state) [Render True]))
   \<and> \<not> stage_order
         (sync_calls (lifecycle_v2 demo_empty_env (mount_v2 demo_state) [Render True]))"
  unfolding demo_plain_run_v1 demo_modal_rerun
  by (simp add: stage_order_claimed_def stage_order_def is_notification_def
      is_empty_check_def)

theorem C1_stage_order_witness:
  "stage_order (events (handleFormSubmission_v1 demo_env demo_state 7))
   \<and> list_ex is_ProcessPostSubmissionActions
       (events (run_of (handleFormSubmission demo_env (forms_of demo_state) 7)))
   \<and> list_all is_Resolved
       (map (\<lambda>c. processSubmission demo_env (processor demo_env c) c 7)
          (reached (forms_of demo_state)))"
  using C1_stage_order
    [of demo_env demo_state 7 ConfirmButton "mount_v2 demo_state" "[]" "forms_of demo_state"]
  unfolding demo_plain_run_v1
  by (simp add: forms_of_demo_state demo_run_defs demo_env_def stage_order_def
      is_empty_check_def)

text \<open>
  Claim C2, amended to variant 2. When every form passes \<^verbatim>\<open>validateForm\<close> and some form
  has empty fields, a run of the effect with \<^verbatim>\<open>isSubmitting\<close> validates, checks and
  opens the confirmation modal. From the mounted component on, through any sequence of
  renders and clicks: no \<^verbatim>\<open>processSubmission\<close> call is made before the modal has been
  opened nor before the user has clicked Confirm, none at all when the user never clicks
  Confirm, and none after an \<^verbatim>\<open>await\<close>.
\<close>

theorem C2_modal_before_processors:
  assumes "list_all (validateForm env) (forms_of st)"
    and "list_ex (validateEmptyFields env) (forms_of st)"
  shows "(isSubmitting env \<longrightarrow>
            events (fst (fst (useEffect_v2 env st ac))) =
              map ValidateForm (forms_of st)
              @ map ValidateEmptyFields (some_calls (validateEmptyFields env) (forms_of st))
              @ [SetIsEmptyFormModalOpen True]
          \<and> isEmptyFormModalOpen (snd (fst (useEffect_v2 env st ac))))
       \<and> guarded_by (\<lambda>e. e = SetIsEmptyFormModalOpen True) is_ProcessSubmission
           (sync_calls (lifecycle_v2 env (mount_v2 st) inputs))
       \<and> guarded_by (\<lambda>e. e = Clicked ConfirmButton) is_ProcessSubmission
           (sync_calls (lifecycle_v2 env (mount_v2 st) inputs))
       \<and> (Click ConfirmButton \<notin> set inputs \<longrightarrow>
            \<not> list_ex is_ProcessSubmission
                (sync_calls (lifecycle_v2 env (mount_v2 st) inputs)))
       \<and> list_all (\<lambda>p. \<not> list_ex is_ProcessSubmission (events (snd p)))
           (lifecycle_v2 env (mount_v2 st) inputs)"
proof -
  have mounted: "list_all (validateForm env) (forms_of (provider (mount_v2 st)))"
      "list_ex (validateEmptyFields env) (forms_of (provider (mount_v2 st)))"
    using assms by (simp_all add: forms_of_provider)
  have closed: "\<not> isEmptyFormModalOpen (provider (mount_v2 st))"
    by (simp add: mount_v2_def)
  have effect: "events (fst (fst (useEffect_v2 env st ac))) =
              map ValidateForm (forms_of st)
              @ map ValidateEmptyFields (some_calls (validateEmptyFields env) (forms_of st))
              @ [SetIsEmptyFormModalOpen True]
          \<and> isEmptyFormModalOpen (snd (fst (useEffect_v2 env st ac)))"
    if "isSubmitting env"
    using that assms by (simp add: useEffect_v2_def Let_def every_calls_all)
  from effect lifecycle_opened [OF mounted closed, of inputs]
    lifecycle_confirmed [OF mounted, of inputs]
    lifecycle_unconfirmed [OF mounted, of inputs]
    rest_quiet_lifecycle [of env "mount_v2 st" inputs]
  show ?thesis
    by blast
qed

text \<open>
  Variants 1 and 3 have no modal: with valid, empty forms and no callback for empty forms
  they call the processors at once.
\<close>

theorem C2_every_submission_counterexample:
  "isSubmitting demo_empty_env
   \<and> list_all (validateForm demo_empty_env) (forms_of demo_state)
   \<and> list_all (validateEmptyForm demo_empty_env) (forms_of demo_state)
   \<and> \<not> guarded_by (\<lambda>e. e = SetIsEmptyFormModalOpen True) is_ProcessSubmission
         (events (handleFormSubmission_v1 demo_empty_env demo_state 7))
   \<and> \<not> guarded_by (\<lambda>e. e = SetIsEmptyFormModalOpen True) is_ProcessSubmission
         (events (handleFormSubmission_v3 demo_empty_env demo_state 7))"
  by (simp add: demo_run_defs forms_of_demo_state demo_envs)

theorem C2_modal_before_processors_witness:
  "list_all (validateForm demo_empty_env) (forms_of demo_state)
   \<and> list_ex (validateEmptyFields demo_empty_env) (forms_of demo_state)
   \<and> sync_calls (lifecycle_v2 demo_empty_env (mount_v2 demo_state)
        [Render True, Click ConfirmButton]) =
       [ValidateForm (Some 0), ValidateForm (Some 1),
        ValidateEmptyFields (Some 0), ValidateEmptyFields (Some 1),
        SetIsEmptyFormModalOpen True,
        ValidateForm (Some 0), ValidateForm (Some 1),
        ValidateEmptyFields (Some 0), ValidateEmptyFields (Some 1),
        SetIsEmptyFormModalOpen True,
        Clicked ConfirmButton,
        ProcessSubmission ''EncounterFormProcessor'' 0 2,
        ProcessSubmission ''EncounterFormProcessor'' 1 2,
        SetIsEmptyFormModalOpen False,
        ValidateForm (Some 0), ValidateForm (Some 1),
        ValidateEmptyFields (Some 0), ValidateEmptyFields (Some 1),
        SetIsEmptyFormModalOpen True,
        ValidateForm (Some 0), ValidateForm (Some 1),
        ValidateEmptyFields (Some 0), ValidateEmptyFields (Some 1),
        SetIsEmptyFormModalOpen True]
   \<and> guarded_by (\<lambda>e. e = Clicked ConfirmButton) is_ProcessSubmission
       (sync_calls (lifecycle_v2 demo_empty_env (mount_v2 demo_state)
          [Render True, Click ConfirmButton]))
   \<and> Click ConfirmButton \<notin> set [Render True, Click CancelButton, Render True]
   \<and> \<not> list_ex is_ProcessSubmission
         (sync_calls (lifecycle_v2 demo_empty_env (mount_v2 demo_state)
            [Render True, Click CancelButton, Render True]))"
  using C2_modal_before_processors
      [of demo_empty_env demo_state 7 "[Render True, Click ConfirmButton]"]
    C2_modal_before_processors
      [of demo_empty_env demo_state 7 "[Render True, Click CancelButton, Render True]"]
  by (simp add: lifecycle_defs Let_def forms_of_mount_demo_state forms_of_demo_state
      forms_of_modal demo_envs IncompleteFormConfirmationModal_def handleFormSubmission_def)

text \<open>
  Claim C3. When every form context is defined and the promise of some processor rejects,
  the run of the submission block is: the \<^verbatim>\<open>processSubmission\<close> calls, then
  \<^verbatim>\<open>setIsSubmitting(false)\<close>, then one toast for the rejection \<^verbatim>\<open>Promise.all\<close> rejects
  with. For an \<^verbatim>\<open>Error\<close> the toast is the descriptor with kind \<^verbatim>\<open>error\<close>, the error's
  message as description and \<^verbatim>\<open>critical: true\<close>; any other value is handed to
  \<^verbatim>\<open>showToast\<close> as it is. The block is the function of variant 2 and the try statement of
  variants 1 and 3.
\<close>

theorem C3_rejection_caught_once:
  assumes "list_all (\<lambda>f. f \<noteq> None) fs"
    and "list_ex (\<lambda>c. is_Rejected (processSubmission env (processor env c) c ac)) (reached fs)"
  shows "\<exists>c n errorObject.
           c \<in> set (reached fs)
         \<and> processSubmission env (processor env c) c ac = Rejected n errorObject
         \<and> run_of (handleFormSubmission env fs ac) =
             Done (map (\<lambda>c. ProcessSubmission (processor env c) c ac) (reached fs)
                   @ [SetIsSubmitting False,
                      ShowToast
                        (case errorObject of
                           ErrorInstance message \<Rightarrow>
                             ToastDescriptor
                               (t env ''errorProcessingFormSubmission''
                                  ''Error processing form submission'')
                               ''error'' message True
                         | OtherValue v \<Rightarrow> ToastValue v)])
         \<and> length (filter is_ShowToast (events (run_of (handleFormSubmission env fs ac)))) = 1"
proof -
  let ?ps = "map (\<lambda>c. processSubmission env (processor env c) c ac) (reached fs)"
  from assms(2) have "list_ex is_Rejected ?ps"
    by (auto simp: list_ex_iff)
  then obtain n e where first: "first_rejection ?ps = Some (n, e)"
    using first_rejection_exists by blast
  then have "Rejected n e \<in> set ?ps"
    by (rule first_rejection_member)
  then obtain c where c: "c \<in> set (reached fs)"
      "processSubmission env (processor env c) c ac = Rejected n e"
    by auto
  from first have "await_Promise_all ?ps = Threw e"
    by (simp add: await_Promise_all_Threw)
  with handleFormSubmission_calls [OF assms(1), of env ac]
  have run: "run_of (handleFormSubmission env fs ac) =
      Done (map (\<lambda>c. ProcessSubmission (processor env c) c ac) (reached fs) @ catch_block env e)"
    by (simp add: run_of_def)
  have "length (filter is_ShowToast (events (run_of (handleFormSubmission env fs ac)))) = 1"
    by (cases e) (simp_all add: run catch_block_def filter_empty_conv)
  with c run show ?thesis
    by (cases e) (auto simp: catch_block_def)
qed

theorem C3_rejection_caught_once_witness:
  "list_all (\<lambda>f. f \<noteq> None) (forms_of demo_state)
   \<and> list_ex (\<lambda>c. is_Rejected
         (processSubmission demo_rejecting_env (processor demo_rejecting_env c) c 7))
       (reached (forms_of demo_state))
   \<and> run_of (handleFormSubmission demo_rejecting_env (forms_of demo_state) 7) =
       Done [ProcessSubmission ''EncounterFormProcessor'' 0 7,
             ProcessSubmission ''EncounterFormProcessor'' 1 7,
             SetIsSubmitting False,
             ShowToast (ToastDescriptor ''Error processing form submission'' ''error''
                          ''boom'' True)]"
  using C3_rejection_caught_once [of "forms_of demo_state" demo_rejecting_env 7]
  by (simp add: demo_run_defs forms_of_demo_state demo_envs)

text \<open>
  Claim C4. In each variant, when \<^verbatim>\<open>isSubmitting\<close> holds and some form fails
  \<^verbatim>\<open>validateForm\<close>, the run ends, and apart from the calls of the validators its only
  call is \<^verbatim>\<open>setIsSubmitting(false)\<close>: no processor is called, no toast and no snackbar
  is shown, and variant 2 leaves the modal as it was.
\<close>

theorem C4_validation_failure_aborts_silently:
  assumes "isSubmitting env" and "\<not> list_all (validateForm env) (forms_of st)"
  shows "completed (handleFormSubmission_v1 env st ac)
       \<and> effects (events (handleFormSubmission_v1 env st ac)) = [SetIsSubmitting False]
       \<and> completed (fst (fst (useEffect_v2 env st ac)))
       \<and> effects (events (fst (fst (useEffect_v2 env st ac)))) = [SetIsSubmitting False]
       \<and> snd (fst (useEffect_v2 env st ac)) = st
       \<and> completed (handleFormSubmission_v3 env st ac)
       \<and> effects (events (handleFormSubmission_v3 env st ac)) = [SetIsSubmitting False]
       \<and> \<not> list_ex (\<lambda>e. is_ProcessSubmission e \<or> is_ShowToast e \<or> is_ShowSnackbar e)
             (events (handleFormSubmission_v1 env st ac)
              @ events (fst (fst (useEffect_v2 env st ac)))
              @ events (handleFormSubmission_v3 env st ac))"
  using assms
  by (auto simp: handleFormSubmission_v1_def useEffect_v2_def handleFormSubmission_v3_def
      Let_def effects_append effects_validations effects_checks_v1 effects_checks_v2
      effects_def is_query_def list_ex_iff)

theorem C4_validation_failure_aborts_silently_witness:
  "isSubmitting demo_invalid_env
   \<and> \<not> list_all (validateForm demo_invalid_env) (forms_of demo_state)
   \<and> events (handleFormSubmission_v1 demo_invalid_env demo_state 7)
       = [ValidateForm (Some 0), ValidateForm (Some 1), SetIsSubmitting False]
   \<and> effects (events (handleFormSubmission_v1 demo_invalid_env demo_state 7))
       = [SetIsSubmitting False]
   \<and> events (fst (fst (useEffect_v2 demo_invalid_env demo_state 7)))
       = [ValidateForm (Some 0), ValidateForm (Some 1),
          ValidateEmptyFields (Some 0), ValidateEmptyFields (Some 1), SetIsSubmitting False]"
  using C4_validation_failure_aborts_silently [of demo_invalid_env demo_state 7]
  by (simp add: demo_run_defs forms_of_demo_state demo_envs)



text \<open>
  Claim C6. Every \<^verbatim>\<open>processSubmission\<close> call of one run receives the abort controller
  of that run (lemma \<open>process_calls_block\<close>), and the effects of variants 1 and 3 return
  a cleanup that aborts it (lemmas \<open>cleanup_v1\<close>, \<open>cleanup_v3\<close>). The effect of variant 2
  returns no cleanup (lemma \<open>cleanup_v2\<close>): on the concrete provider its processors
  receive the controller 7, and tearing the component down aborts nothing, where variants
  1 and 3 abort the controller 7.
\<close>

theorem C6_variant2_never_aborts:
  "filter is_ProcessSubmission (events (fst (fst (useEffect_v2 demo_env demo_state 7))))
     = [ProcessSubmission ''EncounterFormProcessor'' 0 7,
        ProcessSubmission ''EncounterFormProcessor'' 1 7]
   \<and> teardown (snd (useEffect_v2 demo_env demo_state 7)) = []
   \<and> teardown (snd (useEffect_v1 demo_env demo_state 7)) = [Abort 7]
   \<and> teardown (snd (useEffect_v3 demo_env demo_state 7)) = [Abort 7]"
  by (simp add: demo_run_defs forms_of_demo_state demo_env_def teardown_def
      useEffect_v1_def useEffect_v3_def)

text \<open>
  Claim C7. Within one run of the effect every registered form is passed once to its own
  processor with the abort controller of the run, and the results are handed on (lemmas
  \<open>forms_submitted_once_per_run\<close>, \<open>process_calls_registered\<close>). In variants 1 and 3
  the effect depends on \<^verbatim>\<open>isSubmitting\<close> alone, and a render that leaves it unchanged
  starts no run. In variant 2 the effect runs after every render: on the concrete
  provider, while the promises of the processors are pending, a second render passes
  both forms to their processors a second time, with the abort controller 2.
\<close>

theorem C7_variant2_submits_again_on_render:
  "lifecycle_v2 demo_pending_env (mount_v2 demo_state) [Render True, Render True] =
     [([ValidateForm (Some 0), ValidateForm (Some 1),
        ValidateEmptyFields (Some 0), ValidateEmptyFields (Some 1),
        ProcessSubmission ''EncounterFormProcessor'' 0 1,
        ProcessSubmission ''EncounterFormProcessor'' 1 1], Hung []),
      ([ValidateForm (Some 0), ValidateForm (Some 1),
        ValidateEmptyFields (Some 0), ValidateEmptyFields (Some 1),
        ProcessSubmission ''EncounterFormProcessor'' 0 2,
        ProcessSubmission ''EncounterFormProcessor'' 1 2], Hung [])]
   \<and> lifecycle_v1 demo_pending_env demo_state [True, True] =
       [Hung [ValidateForm (Some 0), ValidateForm (Some 1), ValidateEmptyForm (Some 0),
              ProcessSubmission ''EncounterFormProcessor'' 0 1,
              ProcessSubmission ''EncounterFormProcessor'' 1 1]]
   \<and> lifecycle_v3 demo_pending_env demo_state [True, True] =
       [Hung [ValidateForm (Some 0), ValidateForm (Some 1), ValidateEmptyForm (Some 0),
              ProcessSubmission ''EncounterFormProcessor'' 0 1,
              ProcessSubmission ''EncounterFormProcessor'' 1 1]]"
  by (simp add: lifecycle_defs Let_def forms_of_mount_demo_state forms_of_demo_state
      forms_of_modal demo_envs demo_pending_env_def demo_run_defs)

text \<open>
  Claim C8. In variants 1 and 3, when \<^verbatim>\<open>isSubmitting\<close> holds, every form is valid and
  empty, and no \<^verbatim>\<open>handleEmptyFormSubmission\<close> callback is given, the run consists of the
  validations, the empty checks and the submission block: the processors are called for
  the forms, and the callback is never called.
\<close>

theorem C8_no_callback_no_confirmation:
  assumes "isSubmitting env"
    and "list_all (validateForm env) (forms_of st)"
    and "list_all (validateEmptyForm env) (forms_of st)"
    and "handleEmptyFormSubmission env = None"
  shows "handleFormSubmission_v1 env st ac =
           emit (map ValidateForm (forms_of st) @ map ValidateEmptyForm (forms_of st))
             (run_of (handleFormSubmission env (forms_of st) ac))
       \<and> handleFormSubmission_v3 env st ac =
           emit (map ValidateForm (forms_of st) @ map ValidateEmptyForm (forms_of st))
             (run_of (handleFormSubmission env (forms_of st) ac))
       \<and> effects (events (handleFormSubmission_v1 env st ac))
           = events (run_of (handleFormSubmission env (forms_of st) ac))
       \<and> effects (events (handleFormSubmission_v3 env st ac))
           = events (run_of (handleFormSubmission env (forms_of st) ac))
       \<and> filter is_ProcessSubmission (events (handleFormSubmission_v1 env st ac))
           = map (\<lambda>c. ProcessSubmission (processor env c) c ac) (reached (forms_of st))
       \<and> filter is_ProcessSubmission (events (handleFormSubmission_v3 env st ac))
           = map (\<lambda>c. ProcessSubmission (processor env c) c ac) (reached (forms_of st))
       \<and> HandleEmptyFormSubmission \<notin> set (events (handleFormSubmission_v1 env st ac))
       \<and> HandleEmptyFormSubmission \<notin> set (events (handleFormSubmission_v3 env st ac))"
proof -
  let ?block = "run_of (handleFormSubmission env (forms_of st) ac)"
  let ?queries = "map ValidateForm (forms_of st) @ map ValidateEmptyForm (forms_of st)"
  have v1: "handleFormSubmission_v1 env st ac = emit ?queries ?block"
    using assms by (simp add: processing_v1 every_calls_all)
  have v3: "handleFormSubmission_v3 env st ac = emit ?queries ?block"
    using assms by (simp add: processing_v3 every_calls_all)
  have eff: "effects (events (emit ?queries ?block)) = events ?block"
    by (simp add: events_emit effects_append effects_validations effects_checks_v1
        effects_block)
  have calls: "filter is_ProcessSubmission (events (emit ?queries ?block)) =
      map (\<lambda>c. ProcessSubmission (processor env c) c ac) (reached (forms_of st))"
    by (simp add: events_emit process_calls_block filter_empty_conv)
  have "HandleEmptyFormSubmission \<notin> set (effects (events (emit ?queries ?block)))"
    unfolding eff
    using calls_map_processSubmission [of env "forms_of st" ac]
    by (cases "map_processSubmission env (forms_of st) ac")
       (auto simp: run_of_def events_emit handleFormSubmission_def catch_block_def
          after_results_def hand_over_def
          split: sum.splits awaited.splits option.splits thrown.splits)
  then have quiet: "HandleEmptyFormSubmission \<notin> set (events (emit ?queries ?block))"
    by (auto simp: effects_def is_query_def)
  from v1 v3 eff calls quiet show ?thesis
    by simp
qed

theorem C8_no_callback_no_confirmation_witness:
  "isSubmitting demo_empty_env
   \<and> list_all (validateForm demo_empty_env) (forms_of demo_state)
   \<and> list_all (validateEmptyForm demo_empty_env) (forms_of demo_state)
   \<and> handleEmptyFormSubmission demo_empty_env = None
   \<and> events (handleFormSubmission_v1 demo_empty_env demo_state 7) =
       [ValidateForm (Some 0), ValidateForm (Some 1),
        ValidateEmptyForm (Some 0), ValidateEmptyForm (Some 1),
        ProcessSubmission ''EncounterFormProcessor'' 0 7,
        ProcessSubmission ''EncounterFormProcessor'' 1 7,
        SetIsSubmitting False,
        ShowSnackbar (Snackbar ''Form submitted'' ''Form submitted successfully'' ''success'' True),
        ProcessPostSubmissionActions () [''encounter'', ''encounter''] ''enter'',
        HideFormCollapseToggle, OnSubmit [''encounter'', ''encounter'']]"
  using C8_no_callback_no_confirmation [of demo_empty_env demo_state 7]
  by (simp add: demo_run_defs forms_of_demo_state demo_envs)

text \<open>
  Claim C9. In variants 1 and 3, when \<^verbatim>\<open>isSubmitting\<close> holds, every form is valid and
  empty, and the callback \<^verbatim>\<open>handleEmptyFormSubmission\<close> is given, no processor is called,
  whatever the callback returns. Unless it returns a promise that never settles, the run
  ends and calls \<^verbatim>\<open>setIsSubmitting\<close> exactly once, with \<^verbatim>\<open>false\<close>. When the promise
  rejects, variant 1 does not call \<^verbatim>\<open>handleClose\<close>.
\<close>

theorem C9_callback_replaces_submission:
  assumes "isSubmitting env"
    and "list_all (validateForm env) (forms_of st)"
    and "list_all (validateEmptyForm env) (forms_of st)"
    and "handleEmptyFormSubmission env = Some result"
  shows "\<not> list_ex is_ProcessSubmission (events (handleFormSubmission_v1 env st ac))
       \<and> \<not> list_ex is_ProcessSubmission (events (handleFormSubmission_v3 env st ac))
       \<and> (result \<noteq> PromiseResult Never \<longrightarrow>
            completed (handleFormSubmission_v1 env st ac)
          \<and> filter is_SetIsSubmitting (events (handleFormSubmission_v1 env st ac))
              = [SetIsSubmitting False]
          \<and> completed (handleFormSubmission_v3 env st ac)
          \<and> filter is_SetIsSubmitting (events (handleFormSubmission_v3 env st ac))
              = [SetIsSubmitting False])
       \<and> ((\<exists>e. result = PromiseResult (Threw e)) \<longrightarrow>
            HandleClose \<notin> set (events (handleFormSubmission_v1 env st ac)))"
proof -
  let ?queries = "map ValidateForm (forms_of st) @ map ValidateEmptyForm (forms_of st)"
  have v1: "handleFormSubmission_v1 env st ac =
      emit (?queries @ [HandleEmptyFormSubmission]) (empty_form_v1 result)"
    using assms by (simp add: handleFormSubmission_v1_def Let_def every_calls_all)
  have v3: "handleFormSubmission_v3 env st ac =
      emit (?queries @ [HandleEmptyFormSubmission])
        (case await_result result of
           Fulfilled u \<Rightarrow> Done [HandleDiscardForm, SetIsSubmitting False]
         | Threw e \<Rightarrow> Done [SetIsSubmitting False]
         | Never \<Rightarrow> Hung [])"
    using assms by (simp add: handleFormSubmission_v3_def Let_def every_calls_all)
  have quiet: "filter P ?queries = []"
    if "\<And>f. \<not> P (ValidateForm f)" "\<And>f. \<not> P (ValidateEmptyForm f)" for P
    using that by (auto simp: filter_empty_conv)
  show ?thesis
    unfolding v1 v3
    by (cases result; cases "await_result result")
       (auto simp: events_emit completed_emit empty_form_v1_def await_result_def quiet
          list_ex_iff split: awaited.splits)
qed

theorem C9_callback_replaces_submission_witness:
  "isSubmitting demo_callback_env
   \<and> list_all (validateForm demo_callback_env) (forms_of demo_state)
   \<and> list_all (validateEmptyForm demo_callback_env) (forms_of demo_state)
   \<and> handleEmptyFormSubmission demo_callback_env
       = Some (PromiseResult (Threw (OtherValue ''cancelled'')))
   \<and> handleFormSubmission_v1 demo_callback_env demo_state 7 =
       Done [ValidateForm (Some 0), ValidateForm (Some 1),
             ValidateEmptyForm (Some 0), ValidateEmptyForm (Some 1),
             HandleEmptyFormSubmission, SetIsSubmitting False]
   \<and> handleFormSubmission_v3 demo_callback_env demo_state 7 =
       Done [ValidateForm (Some 0), ValidateForm (Some 1),
             ValidateEmptyForm (Some 0), ValidateEmptyForm (Some 1),
             HandleEmptyFormSubmission, SetIsSubmitting False]"
  using C9_callback_replaces_submission
    [of demo_callback_env demo_state "PromiseResult (Threw (OtherValue ''cancelled''))" 7]
  by (simp add: demo_run_defs forms_of_demo_state demo_envs)

text \<open>
  Claim C10. When \<^verbatim>\<open>isSubmitting\<close> holds, every run of variants 1 and 3 that ends has
  called \<^verbatim>\<open>setIsSubmitting(false)\<close>. The effect of variant 2 that ends has called it too,
  except when every form is valid and some form has empty fields: then it has opened the
  modal and has not called \<^verbatim>\<open>setIsSubmitting\<close> at all. From there the discard handler
  calls \<^verbatim>\<open>setIsSubmitting(false)\<close>, and so does every run of the confirmation handler
  that ends. The runs do end whenever no promise they await stays pending: the promises of
  the processors, of the post-submission actions and of the callback for empty forms.
\<close>

theorem C10_every_path_resets_isSubmitting:
  assumes "isSubmitting env"
  shows "(completed (handleFormSubmission_v1 env st ac) \<longrightarrow>
            SetIsSubmitting False \<in> set (events (handleFormSubmission_v1 env st ac)))
       \<and> (completed (handleFormSubmission_v3 env st ac) \<longrightarrow>
            SetIsSubmitting False \<in> set (events (handleFormSubmission_v3 env st ac)))
       \<and> (completed (fst (fst (useEffect_v2 env st ac))) \<longrightarrow>
            (if list_all (validateForm env) (forms_of st)
                \<and> list_ex (validateEmptyFields env) (forms_of st)
             then SetIsEmptyFormModalOpen True \<in> set (events (fst (fst (useEffect_v2 env st ac))))
                \<and> \<not> list_ex is_SetIsSubmitting (events (fst (fst (useEffect_v2 env st ac))))
             else SetIsSubmitting False \<in> set (events (fst (fst (useEffect_v2 env st ac))))))
       \<and> fst (handleIncompleteFormDiscard st)
           = Done [SetIsEmptyFormModalOpen False, SetIsSubmitting False]
       \<and> (completed (fst (handleIncompleteFormConfirmation env st ac)) \<longrightarrow>
            SetIsSubmitting False
              \<in> set (events (fst (handleIncompleteFormConfirmation env st ac))))
       \<and> (list_all (\<lambda>c. processSubmission env (processor env c) c ac \<noteq> Pending)
             (reached (forms_of st))
            \<and> (\<forall>h rs. processPostSubmissionActions env h rs \<noteq> Never)
            \<and> handleEmptyFormSubmission env \<noteq> Some (PromiseResult Never)
          \<longrightarrow> completed (handleFormSubmission_v1 env st ac)
            \<and> completed (handleFormSubmission_v3 env st ac)
            \<and> completed (fst (fst (useEffect_v2 env st ac)))
            \<and> completed (fst (handleIncompleteFormConfirmation env st ac)))"
proof (intro conjI impI)
  assume "completed (handleFormSubmission_v1 env st ac)"
  then show "SetIsSubmitting False \<in> set (events (handleFormSubmission_v1 env st ac))"
    using assms block_resets [of env "forms_of st" ac]
    by (auto simp: handleFormSubmission_v1_def Let_def events_emit completed_emit
        empty_form_v1_def split: if_splits option.splits empty_result.splits awaited.splits)
next
  assume "completed (handleFormSubmission_v3 env st ac)"
  then show "SetIsSubmitting False \<in> set (events (handleFormSubmission_v3 env st ac))"
    using assms block_resets [of env "forms_of st" ac]
    by (auto simp: handleFormSubmission_v3_def Let_def events_emit completed_emit
        split: if_splits option.splits awaited.splits)
next
  assume "completed (fst (fst (useEffect_v2 env st ac)))"
  then show "if list_all (validateForm env) (forms_of st)
                \<and> list_ex (validateEmptyFields env) (forms_of st)
             then SetIsEmptyFormModalOpen True \<in> set (events (fst (fst (useEffect_v2 env st ac))))
                \<and> \<not> list_ex is_SetIsSubmitting (events (fst (fst (useEffect_v2 env st ac))))
             else SetIsSubmitting False \<in> set (events (fst (fst (useEffect_v2 env st ac))))"
    using assms block_resets [of env "forms_of st" ac]
    by (auto simp: useEffect_v2_def Let_def events_emit completed_emit list_ex_iff)
next
  show "fst (handleIncompleteFormDiscard st)
           = Done [SetIsEmptyFormModalOpen False, SetIsSubmitting False]"
    by (simp add: handleIncompleteFormDiscard_def)
next
  assume "completed (fst (handleIncompleteFormConfirmation env st ac))"
  then have "completed (run_of (handleFormSubmission env (forms_of st) ac))"
    by (simp add: handleIncompleteFormConfirmation_def Let_def completed_emit run_of_def)
  from block_resets [OF this]
  show "SetIsSubmitting False \<in> set (events (fst (handleIncompleteFormConfirmation env st ac)))"
    by (auto simp: handleIncompleteFormConfirmation_def Let_def events_emit run_of_def)
next
  assume settle: "list_all (\<lambda>c. processSubmission env (processor env c) c ac \<noteq> Pending)
             (reached (forms_of st))
            \<and> (\<forall>h rs. processPostSubmissionActions env h rs \<noteq> Never)
            \<and> handleEmptyFormSubmission env \<noteq> Some (PromiseResult Never)"
  then have block: "completed (run_of (handleFormSubmission env (forms_of st) ac))"
    by (intro block_completes) simp_all
  from settle have callback: "handleEmptyFormSubmission env \<noteq> Some (PromiseResult Never)"
    by simp
  show "completed (handleFormSubmission_v1 env st ac)"
    using block callback
    by (auto simp: handleFormSubmission_v1_def Let_def completed_emit empty_form_v1_def
        split: option.splits empty_result.splits awaited.splits)
  show "completed (handleFormSubmission_v3 env st ac)"
    using block callback
    by (auto simp: handleFormSubmission_v3_def Let_def completed_emit await_result_def
        split: option.splits empty_result.splits awaited.splits)
  show "completed (fst (fst (useEffect_v2 env st ac)))"
    using block by (simp add: useEffect_v2_def Let_def completed_emit)
  show "completed (fst (handleIncompleteFormConfirmation env st ac))"
    using block
    by (simp add: handleIncompleteFormConfirmation_def Let_def completed_emit run_of_def)
qed

theorem C10_every_path_resets_isSubmitting_witness:
  "isSubmitting demo_env
   \<and> list_all (\<lambda>c. processSubmission demo_env (processor demo_env c) c 7 \<noteq> Pending)
       (reached (forms_of demo_state))
   \<and> (\<forall>h rs. processPostSubmissionActions demo_env h rs \<noteq> Never)
   \<and> handleEmptyFormSubmission demo_env \<noteq> Some (PromiseResult Never)
   \<and> completed (handleFormSubmission_v1 demo_env demo_state 7)
   \<and> SetIsSubmitting False \<in> set (events (handleFormSubmission_v1 demo_env demo_state 7))
   \<and> completed (fst (fst (useEffect_v2 demo_empty_env demo_state 7)))
   \<and> list_all (validateForm demo_empty_env) (forms_of demo_state)
   \<and> list_ex (validateEmptyFields demo_empty_env) (forms_of demo_state)
   \<and> events (fst (fst (useEffect_v2 demo_empty_env demo_state 7))) =
       [ValidateForm (Some 0), ValidateForm (Some 1),
        ValidateEmptyFields (Some 0), ValidateEmptyFields (Some 1),
        SetIsEmptyFormModalOpen True]"
  using C10_every_path_resets_isSubmitting [of demo_env demo_state 7]
    C10_every_path_resets_isSubmitting [of demo_empty_env demo_state 7]
  by (simp add: demo_run_defs forms_of_demo_state demo_envs)

end
